theory Spec2Isabelle
  imports Complex_Main "HOL-Library.Word" "HOL-Library.Log_Nat" "HOL-Library.Code_Target_Numeral"
begin

unbundle bit_operations_syntax

section \<open>The point-cloud octree of PointCloudOctree.cpp\<close>

text \<open>
  The development embeds \<^verbatim>\<open>FPointCloudOctree\<close> and \<^verbatim>\<open>FPointCloudOctree::Node\<close>
  of \<^verbatim>\<open>PointCloudOctree.cpp\<close>.

  \<^item> Coordinates and the reduction factor are \<^verbatim>\<open>float\<close> (binary32); the sampling
    strides and the counter of the sampling loop are \<^verbatim>\<open>double\<close> (binary64). A finite
    value is the rational it denotes, and an arithmetic operation of the source is the
    exact operation followed by the rounding of its format, to nearest with ties to even
    and gradual underflow (\<open>f32\<close>, \<open>f64\<close>). A double can also be an infinity, \<open>PInf\<close> or
    \<open>NInf\<close>.
    Coordinates that binary32 turns into an infinity (from \<open>2^128\<close> on) are outside the
    model, and so is a compiler that contracts or reorders the operations.
  \<^item> \<^verbatim>\<open>uint32\<close> vertex indices are \<open>32 word\<close>, the cells of the reservation bitmap
    are \<open>16 word\<close>. \<^verbatim>\<open>LOD\<close> is the value of a \<^verbatim>\<open>uint32\<close>, a \<open>nat\<close> with the
    wrap-around of the subtraction written out. Counters of primitives and cells are
    \<open>nat\<close>: a \<^verbatim>\<open>TArray\<close> holds fewer than \<open>2^31\<close> elements, so they do not wrap.
  \<^item> A read or write outside an array, and a loop that does not end, is the result
    \<open>None\<close>.
  \<^item> The \<^verbatim>\<open>Parent\<close> pointer of a node is the view of the parent that the code of the
    child reads and writes: the parent's depth and its populated child slots.
\<close>

subsection \<open>Floating-point numbers\<close>

text \<open>A \<^verbatim>\<open>double\<close>: a finite value, plus infinity or minus infinity.\<close>

datatype dbl = Fin rat | PInf | NInf

text \<open>
  Rounding. \<open>rne\<close> rounds to the nearest integer, a tie to the even one. \<open>expo x\<close> is the
  exponent of a positive \<open>x\<close>, the \<open>e\<close> with \<open>2^e \<le> x < 2^(e + 1)\<close>. \<open>round_to p emin\<close>
  rounds the magnitude to a significand of \<open>p\<close> bits; below \<open>2^emin\<close> the spacing stays
  that of the exponent \<open>emin\<close> (subnormal numbers), so a value below half the least
  subnormal becomes 0.
\<close>

definition rne :: "rat \<Rightarrow> int" where
  "rne x =
     (let f = \<lfloor>x\<rfloor>; d = x - of_int f in
      if d < 1 / 2 then f else if 1 / 2 < d then f + 1 else if even f then f else f + 1)"

definition expo :: "rat \<Rightarrow> int" where
  "expo x = (if 1 \<le> x then bitlen \<lfloor>x\<rfloor> - 1 else - bitlen (\<lceil>1 / x\<rceil> - 1))"

definition round_to :: "nat \<Rightarrow> int \<Rightarrow> rat \<Rightarrow> rat" where
  "round_to p emin x =
     (if x = 0 then 0
      else (let q = 2 powi (max (expo \<bar>x\<bar>) emin - int p + 1)
            in sgn x * (of_int (rne (\<bar>x\<bar> / q)) * q)))"

text \<open>
  The result of a binary32 operation whose exact value is \<open>x\<close>, and of a binary64
  operation: 24 and 53 bits, least normal exponents \<open>-126\<close> and \<open>-1022\<close>, an infinity
  from the magnitude \<open>2^1024\<close> on.
\<close>

definition f32 :: "rat \<Rightarrow> rat" where
  "f32 x = round_to 24 (- 126) x"

definition f64 :: "rat \<Rightarrow> dbl" where
  "f64 x =
     (let y = round_to 53 (- 1022) x
      in if 2 ^ 1024 \<le> y then PInf else if y \<le> - (2 ^ 1024) then NInf else Fin y)"

subsection \<open>Data\<close>

text \<open>\<^verbatim>\<open>FVector\<close> and its componentwise operators, each component a binary32 operation.\<close>

record FVector =
  X :: rat
  Y :: rat
  Z :: rat

definition vadd :: "FVector \<Rightarrow> FVector \<Rightarrow> FVector" where
  "vadd a b = \<lparr>X = f32 (X a + X b), Y = f32 (Y a + Y b), Z = f32 (Z a + Z b)\<rparr>"

definition vsub :: "FVector \<Rightarrow> FVector \<Rightarrow> FVector" where
  "vsub a b = \<lparr>X = f32 (X a - X b), Y = f32 (Y a - Y b), Z = f32 (Z a - Z b)\<rparr>"

definition vmul :: "FVector \<Rightarrow> FVector \<Rightarrow> FVector" where
  "vmul a b = \<lparr>X = f32 (X a * X b), Y = f32 (Y a * Y b), Z = f32 (Z a * Z b)\<rparr>"

definition vscale :: "FVector \<Rightarrow> rat \<Rightarrow> FVector" where
  "vscale a k = \<lparr>X = f32 (X a * k), Y = f32 (Y a * k), Z = f32 (Z a * k)\<rparr>"

record FPointCloudPoint =
  Location :: FVector
  VertexIndex :: "32 word"

text \<open>
  A node. \<^verbatim>\<open>NumChildren\<close> is the length of \<open>Children\<close>; \<open>LocalBounds\<close> is origin and
  box extent, \<open>None\<close> before line 84 assigns it (\<^verbatim>\<open>WorldBounds\<close> receives the same
  value there and is not kept apart).
\<close>

datatype Node = Node
  (LOD: nat)
  (NumPrimitives: nat)
  (IBCache: "32 word list")
  (Children: "Node list")
  (ChildIndex: nat)
  (LocalBounds: "(FVector \<times> FVector) option")

definition UINT_MAX :: nat where
  "UINT_MAX = 4294967295"

text \<open>
  Per-level statistics, \<^verbatim>\<open>Stats[Depth]\<close>, with the fields that \<open>AddStats\<close> uses; a
  default-constructed entry has zero counters.
\<close>

record FStats =
  NumCells :: nat
  PointCount :: nat
  MinPointCount :: nat
  MaxPointCount :: nat

text \<open>
  The fields of the tree that a build only reads. \<open>SinglePolySpriteMinimumLOD\<close> is
  compared with the unsigned \<^verbatim>\<open>LOD\<close>, so it is its unsigned value. Two entries are not
  fields of the source but what the platform decides:

  \<^item> \<open>UndefinedShift\<close> is the 16-bit value that \<^verbatim>\<open>1 << (Depth - 1)\<close> leaves in \<^verbatim>\<open>Value\<close>
    when the shift count is outside \<open>0..31\<close>, which C++ does not define.
  \<^item> \<open>Powf\<close> is the function \<^verbatim>\<open>powf\<close> of the C library, which \<^verbatim>\<open>FMath::Pow\<close> calls, on a
    binary32 base and an integral exponent. C does not fix how it rounds.
\<close>

record params =
  SinglePolySpriteMinimumLOD :: nat
  MaxLOD :: int
  bUsesSprites :: bool
  MinimumNodePointCount :: int
  SkipValues :: "dbl list"
  UndefinedShift :: "16 word"
  Powf :: "rat \<Rightarrow> nat \<Rightarrow> rat"

text \<open>The fields of the tree that a build writes, under \<^verbatim>\<open>CriticalSection\<close>.\<close>

record build_state =
  ReservedPoints :: "16 word list"
  Stats :: "FStats list"

type_synonym parent_ref = "(nat \<times> Node list) option"

subsection \<open>Reservation bitmap\<close>

text \<open>\<^verbatim>\<open>uint16 Value = 1 << (Depth - 1)\<close> with \<^verbatim>\<open>uint32 Depth\<close> (line 202).\<close>

definition depth_bit :: "params \<Rightarrow> nat \<Rightarrow> 16 word" where
  "depth_bit P Depth =
     (if 1 \<le> Depth \<and> Depth \<le> 32 then push_bit (Depth - 1) 1 else UndefinedShift P)"

definition IsPointUsed :: "params \<Rightarrow> 16 word list \<Rightarrow> 32 word \<Rightarrow> nat \<Rightarrow> bool option" where
  "IsPointUsed P RP Index Depth =
     (let Value = depth_bit P Depth in
      if unat Index < length RP then Some ((RP ! unat Index) AND Value = Value) else None)"

text \<open>
  Modelled from the spec: \<^verbatim>\<open>SetPointUsed\<close> is defined in PointCloudOctree.h, which is
  not among the sources. The spec: bit \<open>d\<close> of the 16-bit field of a point marks "claimed
  by some node at depth \<open>d\<close>"; it is the bit that \<open>IsPointUsed\<close> tests.
\<close>

definition SetPointUsed :: "params \<Rightarrow> 16 word list \<Rightarrow> 32 word \<Rightarrow> nat \<Rightarrow> 16 word list option" where
  "SetPointUsed P RP Index Depth =
     (if unat Index < length RP
      then Some (RP[unat Index := (RP ! unat Index) OR depth_bit P Depth])
      else None)"

text \<open>
  Modelled from the spec: \<^verbatim>\<open>GetDepth\<close> is defined in PointCloudOctree.h, which is not
  among the sources. The spec: the root has depth 0, and the depth of a node is the depth
  of its parent plus 1.
\<close>

definition GetDepth :: "parent_ref \<Rightarrow> nat" where
  "GetDepth Parent = (case Parent of None \<Rightarrow> 0 | Some (d, kids) \<Rightarrow> d + 1)"

subsection \<open>Node::Build, lines 53 to 69: the filter loop\<close>

definition in_box :: "FVector \<Rightarrow> FVector \<Rightarrow> FVector \<Rightarrow> bool" where
  "in_box BMin BMax L \<longleftrightarrow>
     X L \<ge> X BMin \<and> X L \<le> X BMax \<and> Y L \<ge> Y BMin \<and> Y L \<le> Y BMax \<and> Z L \<ge> Z BMin \<and> Z L \<le> Z BMax"

definition off_faces :: "FVector \<Rightarrow> FVector \<Rightarrow> FVector \<Rightarrow> bool" where
  "off_faces BMin BMax L \<longleftrightarrow>
     X L \<noteq> X BMin \<and> X L \<noteq> X BMax \<and> Y L \<noteq> Y BMin \<and> Y L \<noteq> Y BMax \<and> Z L \<noteq> Z BMin \<and> Z L \<noteq> Z BMax"

text \<open>
  The loop over \<^verbatim>\<open>InPoints\<close>; \<open>None\<close> in the list is a null pointer. The result is
  \<^verbatim>\<open>TmpPoints\<close>; \<^verbatim>\<open>Reservations\<close> is the list of its vertex indices.
\<close>

fun Build_filter ::
  "params \<Rightarrow> 16 word list \<Rightarrow> nat \<Rightarrow> FVector \<Rightarrow> FVector \<Rightarrow> FPointCloudPoint option list
     \<Rightarrow> FPointCloudPoint list option" where
  "Build_filter P RP Depth BMin BMax [] = Some []"
| "Build_filter P RP Depth BMin BMax (None # InPoints) = Build_filter P RP Depth BMin BMax InPoints"
| "Build_filter P RP Depth BMin BMax (Some Point # InPoints) =
     (if in_box BMin BMax (Location Point) then
        (if off_faces BMin BMax (Location Point)
         then map_option ((#) Point) (Build_filter P RP Depth BMin BMax InPoints)
         else (case IsPointUsed P RP (VertexIndex Point) Depth of
                 None \<Rightarrow> None
               | Some used \<Rightarrow>
                   if \<not> used
                   then map_option ((#) Point) (Build_filter P RP Depth BMin BMax InPoints)
                   else Build_filter P RP Depth BMin BMax InPoints))
      else Build_filter P RP Depth BMin BMax InPoints)"

text \<open>Lines 79 to 82: the loop over \<^verbatim>\<open>Reservations\<close>.\<close>

fun apply_reservations ::
  "params \<Rightarrow> nat \<Rightarrow> 32 word list \<Rightarrow> 16 word list \<Rightarrow> 16 word list option" where
  "apply_reservations P Depth [] RP = Some RP"
| "apply_reservations P Depth (Reservation # rs) RP =
     (case SetPointUsed P RP Reservation Depth of
        None \<Rightarrow> None
      | Some RP' \<Rightarrow> apply_reservations P Depth rs RP')"

subsection \<open>Node::BuildIBCache\<close>

text \<open>The body of the loop, lines 167 to 190, on the cache and the counter of \<^verbatim>\<open>CacheNode\<close>.\<close>

definition IBCache_step :: "params \<Rightarrow> nat \<Rightarrow> 32 word \<Rightarrow> 32 word list \<times> nat \<Rightarrow> 32 word list \<times> nat" where
  "IBCache_step P lod vi acc =
     (if bUsesSprites P then
        (let idx0 = vi * 4; idx1 = idx0 + 1; idx2 = idx0 + 2 in
         if lod \<ge> SinglePolySpriteMinimumLOD P
         then (fst acc @ [idx0, idx1, idx2], snd acc + 1)
         else (let idx3 = idx0 + 3 in
               (fst acc @ [idx0, idx1, idx2, idx0, idx2, idx3], snd acc + 2)))
      else (fst acc @ [vi], snd acc + 1))"

text \<open>The double sum \<^verbatim>\<open>i + SkipValues[LOD]\<close> of a finite \<open>i\<close>.\<close>

definition dadd :: "rat \<Rightarrow> dbl \<Rightarrow> dbl" where
  "dadd i s = (case s of Fin x \<Rightarrow> f64 (i + x) | PInf \<Rightarrow> PInf | NInf \<Rightarrow> NInf)"

text \<open>
  \<^verbatim>\<open>for (double i = 0; i < InPoints->Num(); i += Tree->SkipValues[LOD])\<close>. The index
  \<^verbatim>\<open>(uint32)i\<close> truncates towards 0; an \<open>i\<close> at or below \<open>-1\<close>, finite or not, has no
  \<^verbatim>\<open>uint32\<close> value, and an index outside \<^verbatim>\<open>InPoints\<close> is a read outside the array. Once \<open>i\<close>
  is plus infinity the test \<open>i < Num\<close> fails and the loop ends.
\<close>

partial_function (option) IBCache_loop ::
  "params \<Rightarrow> nat \<Rightarrow> FPointCloudPoint list \<Rightarrow> rat \<Rightarrow> 32 word list \<times> nat \<Rightarrow> (32 word list \<times> nat) option" where
  "IBCache_loop P lod InPoints i acc =
     (if i < of_nat (length InPoints) then
        (if i \<le> - 1 \<or> length InPoints \<le> nat \<lfloor>i\<rfloor> then None
         else if lod < length (SkipValues P) then
           (case dadd i (SkipValues P ! lod) of
              PInf \<Rightarrow> Some (IBCache_step P lod (VertexIndex (InPoints ! nat \<lfloor>i\<rfloor>)) acc)
            | NInf \<Rightarrow> None
            | Fin i' \<Rightarrow> IBCache_loop P lod InPoints i'
                          (IBCache_step P lod (VertexIndex (InPoints ! nat \<lfloor>i\<rfloor>)) acc))
         else None)
      else Some acc)"

text \<open>
  Line 163: \<open>CacheNode\<close> is \<^verbatim>\<open>Parent->Children[0]\<close> when this node has LOD 0, has a parent,
  the parent has a populated child slot and the maximal LOD is above 1; else it is
  \<^verbatim>\<open>this\<close>.
\<close>

definition merges_into_sibling :: "params \<Rightarrow> Node \<Rightarrow> parent_ref \<Rightarrow> bool" where
  "merges_into_sibling P this Parent \<longleftrightarrow>
     LOD this = 0 \<and> (case Parent of None \<Rightarrow> False | Some (d, kids) \<Rightarrow> kids \<noteq> []) \<and> MaxLOD P > 1"

definition set_cache :: "Node \<Rightarrow> 32 word list \<times> nat \<Rightarrow> Node" where
  "set_cache n acc = Node (LOD n) (snd acc) (fst acc) (Children n) (ChildIndex n) (LocalBounds n)"

definition slots :: "parent_ref \<Rightarrow> Node list" where
  "slots Parent = (case Parent of None \<Rightarrow> [] | Some (d, kids) \<Rightarrow> kids)"

text \<open>
  The result is the returned bool (\<^verbatim>\<open>CacheNode == this\<close>), \<^verbatim>\<open>this\<close>, and the child
  slots of the parent as the call leaves them (none without a parent).
\<close>

definition BuildIBCache ::
  "params \<Rightarrow> Node \<Rightarrow> parent_ref \<Rightarrow> FPointCloudPoint list \<Rightarrow> (bool \<times> Node \<times> Node list) option" where
  "BuildIBCache P this Parent InPoints =
     (if merges_into_sibling P this Parent then
        (case slots Parent of
           [] \<Rightarrow> None
         | CacheNode # kids \<Rightarrow>
             (case IBCache_loop P (LOD this) InPoints 0 (IBCache CacheNode, NumPrimitives CacheNode) of
                None \<Rightarrow> None
              | Some acc \<Rightarrow> Some (False, this, set_cache CacheNode acc # kids)))
      else
        (case IBCache_loop P (LOD this) InPoints 0 (IBCache this, NumPrimitives this) of
           None \<Rightarrow> None
         | Some acc \<Rightarrow> Some (True, set_cache this acc, slots Parent)))"

subsection \<open>Statistics\<close>

text \<open>
  \<^verbatim>\<open>AddStats\<close>, lines 206 to 222. \<^verbatim>\<open>MaxLOD - Depth\<close> is an unsigned subtraction.
\<close>

definition AddStats :: "params \<Rightarrow> nat \<Rightarrow> nat \<Rightarrow> FStats list \<Rightarrow> FStats list option" where
  "AddStats P Depth PointCount0 St =
     (let PC = (if bUsesSprites P \<and>
                   nat ((MaxLOD P - int Depth) mod 2 ^ 32) < SinglePolySpriteMinimumLOD P
                then PointCount0 div 2 else PointCount0)
      in if Depth < length St then
           (let s1 = (St ! Depth)\<lparr>NumCells := NumCells (St ! Depth) + 1\<rparr>;
                s2 = (if PC \<noteq> 0 then
                        s1\<lparr>PointCount := PointCount s1 + PC,
                           MinPointCount := (if NumCells s1 = 1 then PC else min (MinPointCount s1) PC),
                           MaxPointCount := (if NumCells s1 = 1 then PC else max (MaxPointCount s1) PC)\<rparr>
                      else s1)
            in Some (St[Depth := s2]))
         else None)"

subsection \<open>Node::Node, Node::Build, Node::Subdivide, Node::Subdivide_Thread\<close>

text \<open>
  The eight tasks of the root run on a thread pool. The model runs them one after the
  other, each to its end, in the order \<open>sched\<close> (a permutation of the octants \<open>0..7\<close>);
  every such order is an execution the pool can produce. Below the root the loop of
  \<open>Subdivide\<close> calls \<open>Subdivide_Thread\<close> for the octants \<open>0..7\<close> in turn.

  \<open>Build_rest\<close> is \<open>Build\<close> from line 71 on, with \<^verbatim>\<open>TmpPoints\<close> as the filter loop left
  it. A node as the constructor initialises it is \<open>Node UINT_MAX 0 [] [] 0 None\<close>.

  \<^verbatim>\<open>GetDepth() < Tree->MaxLOD\<close> and \<^verbatim>\<open>TmpPoints.Num() >= Tree->MinimumNodePointCount\<close>
  compare integers; \<open>Rebuild\<close> only starts a build with \<open>MaxLOD\<close> from 0 on, where the signed
  and the unsigned reading of the first comparison agree.
\<close>

definition octant_offset :: "nat \<Rightarrow> FVector" where
  "octant_offset i =
     \<lparr>X = (if i AND 1 = 1 then 1 else 0),
      Y = (if i AND 2 = 2 then 1 else 0),
      Z = (if i AND 4 = 4 then 1 else 0)\<rparr>"

definition set_children :: "Node \<Rightarrow> Node list \<Rightarrow> Node" where
  "set_children n kids = Node (LOD n) (NumPrimitives n) (IBCache n) kids (ChildIndex n) (LocalBounds n)"

definition set_child_index :: "Node \<Rightarrow> nat \<Rightarrow> Node" where
  "set_child_index n k = Node (LOD n) (NumPrimitives n) (IBCache n) (Children n) k (LocalBounds n)"

text \<open>
  Lines 145 to 156 of \<open>Subdivide_Thread\<close>: the child is deleted when its LOD is the
  sentinel, else it takes the next child slot. \<open>kids\<close> are the child slots of \<^verbatim>\<open>this\<close> as
  the construction of the child left them.
\<close>

definition link_child :: "Node \<Rightarrow> Node \<Rightarrow> Node list \<Rightarrow> Node" where
  "link_child this Child kids =
     (if LOD Child = UINT_MAX then set_children this kids
      else set_children this (kids @ [set_child_index Child (length kids)]))"

text \<open>
  Termination. A child is one level deeper than its parent, and \<open>Subdivide\<close> only starts
  the loop above the deepest level; the order of the five functions inside a level
  is the order of the calls.
\<close>

definition rank :: "params \<Rightarrow> parent_ref \<Rightarrow> nat \<Rightarrow> nat \<Rightarrow> nat \<Rightarrow> nat \<times> nat \<times> nat" where
  "rank P Parent hi lo n =
     (nat (MaxLOD P - int (GetDepth Parent)),
      (if int (GetDepth Parent) < MaxLOD P then hi else lo), n)"

function
  Build :: "params \<Rightarrow> nat list \<Rightarrow> parent_ref \<Rightarrow> FVector \<Rightarrow> FVector \<Rightarrow> FPointCloudPoint option list
      \<Rightarrow> build_state \<Rightarrow> (Node \<times> Node list \<times> build_state) option"
  and Build_rest :: "params \<Rightarrow> nat list \<Rightarrow> parent_ref \<Rightarrow> FVector \<Rightarrow> FVector \<Rightarrow> FPointCloudPoint list
      \<Rightarrow> build_state \<Rightarrow> (Node \<times> Node list \<times> build_state) option"
  and Subdivide :: "params \<Rightarrow> nat list \<Rightarrow> parent_ref \<Rightarrow> Node \<Rightarrow> FPointCloudPoint list
      \<Rightarrow> build_state \<Rightarrow> (Node \<times> build_state) option"
  and Subdivide_loop :: "params \<Rightarrow> nat list \<Rightarrow> parent_ref \<Rightarrow> nat list \<Rightarrow> FVector \<Rightarrow> Node
      \<Rightarrow> FPointCloudPoint list \<Rightarrow> build_state \<Rightarrow> (Node \<times> build_state) option"
  and Subdivide_Thread :: "params \<Rightarrow> nat list \<Rightarrow> parent_ref \<Rightarrow> Node \<Rightarrow> FPointCloudPoint list
      \<Rightarrow> FVector \<Rightarrow> FVector \<Rightarrow> build_state \<Rightarrow> (Node \<times> build_state) option"
where
  "Build P sched Parent Origin BoxExtent InPoints S =
     (case Build_filter P (ReservedPoints S) (GetDepth Parent)
             (vsub Origin BoxExtent) (vadd Origin BoxExtent) InPoints of
        None \<Rightarrow> None
      | Some TmpPoints \<Rightarrow> Build_rest P sched Parent Origin BoxExtent TmpPoints S)"
| "Build_rest P sched Parent Origin BoxExtent TmpPoints S =
     (if int (length TmpPoints) \<ge> MinimumNodePointCount P then
        (case apply_reservations P (GetDepth Parent) (map VertexIndex TmpPoints) (ReservedPoints S) of
           None \<Rightarrow> None
         | Some RP \<Rightarrow>
             (case BuildIBCache P
                     (Node (nat ((MaxLOD P - int (GetDepth Parent)) mod 2 ^ 32)) 0 [] [] 0
                        (Some (Origin, BoxExtent)))
                     Parent TmpPoints of
                None \<Rightarrow> None
              | Some (stored, this, kids) \<Rightarrow>
                  (case AddStats P (GetDepth Parent) (NumPrimitives this) (Stats S) of
                     None \<Rightarrow> None
                   | Some St \<Rightarrow>
                       (case Subdivide P sched Parent this TmpPoints
                               \<lparr>ReservedPoints = RP, Stats = St\<rparr> of
                          None \<Rightarrow> None
                        | Some (this', S') \<Rightarrow> Some (this', kids, S')))))
      else Some (Node UINT_MAX 0 [] [] 0 None, slots Parent, S))"
| "Subdivide P sched Parent this InPoints S =
     (if int (GetDepth Parent) < MaxLOD P then
        (case LocalBounds this of
           None \<Rightarrow> None
         | Some (Origin, BoxExtent) \<Rightarrow>
             Subdivide_loop P sched Parent
               (if Parent = None then sched else [0, 1, 2, 3, 4, 5, 6, 7])
               (vscale BoxExtent (1 / 2)) this InPoints S)
      else Some (this, S))"
| "Subdivide_loop P sched Parent [] ChildBoxExtent this InPoints S = Some (this, S)"
| "Subdivide_loop P sched Parent (i # todo) ChildBoxExtent this InPoints S =
     (case Subdivide_Thread P sched Parent this InPoints ChildBoxExtent (octant_offset i) S of
        None \<Rightarrow> None
      | Some (this', S') \<Rightarrow> Subdivide_loop P sched Parent todo ChildBoxExtent this' InPoints S')"
| "Subdivide_Thread P sched Parent this InPoints Extent Offset S =
     (case LocalBounds this of
        None \<Rightarrow> None
      | Some (Origin, BoxExtent) \<Rightarrow>
          (case Build P sched (Some (GetDepth Parent, Children this))
                  (vsub (vadd Origin (vmul BoxExtent Offset)) Extent) Extent
                  (map Some InPoints) S of
             None \<Rightarrow> None
           | Some (Child, kids, S') \<Rightarrow> Some (link_child this Child kids, S')))"
  by pat_completeness auto

termination
  apply (relation "inv_image (less_than <*lex*> less_than <*lex*> less_than)
     (case_sum
        (case_sum (\<lambda>(P, sched, Parent, r). rank P Parent 4 2 0)
                  (\<lambda>(P, sched, Parent, r). rank P Parent 3 1 0))
        (case_sum (\<lambda>(P, sched, Parent, r). rank P Parent 2 0 0)
           (case_sum (\<lambda>(P, sched, Parent, todo, r). rank P Parent 1 4 (length todo))
                     (\<lambda>(P, sched, Parent, r). rank P Parent 0 3 0))))")
  apply (auto simp: rank_def GetDepth_def)
  done

declare Build.simps [simp del] Build_rest.simps [simp del] Subdivide.simps [simp del]
  Subdivide_loop.simps [simp del] Subdivide_Thread.simps [simp del]

subsection \<open>The tree: CalculateDistanceThresholds and Rebuild\<close>

text \<open>
  What \<open>Rebuild\<close> reads from the point-cloud asset (\<^verbatim>\<open>UPointCloud\<close>, an external
  collaborator): the configured values, \<^verbatim>\<open>GetLODCount()\<close>, \<^verbatim>\<open>GetPointCount(true)\<close>,
  \<^verbatim>\<open>GetDistanceThreshold(i)\<close>, the list of \<^verbatim>\<open>GetEnabledPoints\<close> and \<^verbatim>\<open>GetBounds()\<close>.
  \<^verbatim>\<open>LODReduction\<close> is a \<^verbatim>\<open>float\<close>: \<open>PC_LODReduction\<close> is a binary32 value.
\<close>

record UPointCloud =
  PC_SinglePolySpriteMinimumLOD :: nat
  PC_LODCount :: int
  PC_UsesSprites :: bool
  PC_MinimumNodePointCount :: int
  PC_LODReduction :: rat
  PC_PointCount :: nat
  PC_DistanceThreshold :: "nat \<Rightarrow> rat"
  PC_EnabledPoints :: "FPointCloudPoint option list"
  PC_BoundsOrigin :: FVector
  PC_BoundsBoxExtent :: FVector

text \<open>
  The tree. \<^verbatim>\<open>Root\<close> is a member of the tree, constructed with it. \<open>Root\<close> is \<open>None\<close> once
  \<^verbatim>\<open>Root.~Node()\<close> has run and no node has been constructed in its place.
\<close>

record FPointCloudOctree =
  Params :: params
  State :: build_state
  DistanceThresholds :: "rat list"
  Root :: "Node option"

text \<open>\<^verbatim>\<open>FMath::Clamp(X, Min, Max)\<close> is \<^verbatim>\<open>X < Min ? Min : X < Max ? X : Max\<close>.\<close>

definition Clamp :: "rat \<Rightarrow> rat \<Rightarrow> rat \<Rightarrow> rat" where
  "Clamp x lo hi = (if x < lo then lo else if x < hi then x else hi)"

text \<open>
  \<^verbatim>\<open>FMath::Pow(A, B)\<close> is \<^verbatim>\<open>powf(A, B)\<close>, here with \<open>B\<close> the loop index. For an
  implementation of IEC 60559, C fixes \<^verbatim>\<open>powf(x, 0) = 1\<close>, \<^verbatim>\<open>powf(+0, y) = +0\<close> for
  \<open>y > 0\<close> and \<^verbatim>\<open>powf(1, y) = 1\<close>; every other value is the one the library returns.
\<close>

definition Pow :: "params \<Rightarrow> rat \<Rightarrow> nat \<Rightarrow> rat" where
  "Pow P A B = (if B = 0 then 1 else if A = 0 then 0 else if A = 1 then 1 else Powf P A B)"

text \<open>
  Line 271, \<^verbatim>\<open>((double)1) / FMath::Pow(1 - FMath::Clamp(LODReduction, 0.0f, 1.0f), i)\<close>:
  a binary32 subtraction, the binary32 power, and a binary64 division. Dividing 1 by
  zero gives plus infinity.
\<close>

definition SkipValue :: "params \<Rightarrow> rat \<Rightarrow> nat \<Rightarrow> dbl" where
  "SkipValue P r i =
     (let p = Pow P (f32 (1 - Clamp r 0 1)) i in if p = 0 then PInf else f64 (1 / p))"

text \<open>
  Lines 224 to 245. The slots that \<^verbatim>\<open>AddUninitialized\<close> appends are written by the loop
  before anything reads them; they are 0 here.
\<close>

definition CalculateDistanceThresholds :: "UPointCloud \<Rightarrow> rat list \<Rightarrow> rat list" where
  "CalculateDistanceThresholds PC DT =
     (let Delta = PC_LODCount PC - int (length DT);
          DT1 = (if Delta > 0 then DT @ replicate (nat Delta) 0
                 else if Delta < 0 then take (nat (PC_LODCount PC)) DT
                 else DT)
      in fold (\<lambda>i dt. dt[i := PC_DistanceThreshold PC i]) [0..<nat (PC_LODCount PC)] DT1)"

definition GetMax :: "FVector \<Rightarrow> rat" where
  "GetMax v = max (max (X v) (Y v)) (Z v)"

text \<open>
  \<^verbatim>\<open>Root.~Node()\<close>, line 250, with the destructor of lines 24 to 33: the loop deletes
  the \<^verbatim>\<open>NumChildren\<close> children, each with the nodes below it, and resets neither
  \<^verbatim>\<open>NumChildren\<close> nor \<^verbatim>\<open>Children[]\<close>. On a constructed root the children are all live. On
  a root that was destroyed and not constructed again, the destructor runs on an object
  whose lifetime has ended, and its loop deletes, through the stale \<^verbatim>\<open>Children[]\<close>, the
  children that are already deleted: C++ does not define that, the result \<open>None\<close>.
\<close>

definition destroy_Root :: "FPointCloudOctree \<Rightarrow> FPointCloudOctree option" where
  "destroy_Root T = (case Root T of Some r \<Rightarrow> Some (T\<lparr>Root := None\<rparr>) | None \<Rightarrow> None)"

text \<open>
  \<open>Rebuild\<close>, lines 247 to 285. The result is what \<^verbatim>\<open>PC_ERROR\<close> logged and the tree;
  \<open>None\<close> when the destructor runs on a destroyed root or the construction of the root
  does not return.
\<close>

definition Rebuild ::
  "nat list \<Rightarrow> UPointCloud \<Rightarrow> FPointCloudOctree \<Rightarrow> (string list \<times> FPointCloudOctree) option" where
  "Rebuild sched PC T =
     (case destroy_Root T of
        None \<Rightarrow> None
      | Some T0 \<Rightarrow>
         (let P1 = (Params T0)
                     \<lparr>SkipValues := [],
                      SinglePolySpriteMinimumLOD := PC_SinglePolySpriteMinimumLOD PC,
                      MaxLOD := PC_LODCount PC - 1,
                      bUsesSprites := PC_UsesSprites PC,
                      MinimumNodePointCount := PC_MinimumNodePointCount PC\<rparr>
          in if MaxLOD P1 < 0 then
               Some ([''MaxLOD is lower than 0!''],
                     T0\<lparr>State := \<lparr>ReservedPoints = [], Stats = []\<rparr>, Params := P1\<rparr>)
             else
               (let P2 = P1\<lparr>SkipValues :=
                              map (SkipValue P1 (PC_LODReduction PC)) [0..<nat (MaxLOD P1 + 1)]\<rparr>;
                    S2 = \<lparr>ReservedPoints = replicate (PC_PointCount PC) 0,
                          Stats = replicate (nat (MaxLOD P1 + 1))
                                    \<lparr>NumCells = 0, PointCount = 0, MinPointCount = 0,
                                     MaxPointCount = 0\<rparr>\<rparr>;
                    DT = CalculateDistanceThresholds PC (DistanceThresholds T0)
                in case Build P2 sched None (PC_BoundsOrigin PC)
                          \<lparr>X = GetMax (PC_BoundsBoxExtent PC), Y = GetMax (PC_BoundsBoxExtent PC),
                           Z = GetMax (PC_BoundsBoxExtent PC)\<rparr>
                          (PC_EnabledPoints PC) S2 of
                     None \<Rightarrow> None
                   | Some (rootNode, kids, S3) \<Rightarrow>
                       Some ([], \<lparr>Params = P2, State = S3\<lparr>ReservedPoints := []\<rparr>,
                                  DistanceThresholds = DT, Root = Some rootNode\<rparr>))))"

declare IBCache_loop.simps [code]

subsection \<open>Two root tasks whose filter loops overlap\<close>

text \<open>
  The filter loop of \<open>Build\<close> reads the bitmap outside \<^verbatim>\<open>CriticalSection\<close>; only the loop
  of line 79 runs under the lock. So two tasks of the root can both run their filter loop
  before either applies its reservations. \<open>two_tasks_overlapped\<close> is that execution for
  the octants \<open>a\<close> and \<open>b\<close> of the node \<^verbatim>\<open>this\<close>: filter of \<open>a\<close>, filter of \<open>b\<close>, the rest of
  the construction and the linking of \<open>a\<close>, then of \<open>b\<close>.
\<close>

definition child_origin :: "FVector \<Rightarrow> FVector \<Rightarrow> FVector \<Rightarrow> nat \<Rightarrow> FVector" where
  "child_origin Origin BoxExtent Extent i =
     vsub (vadd Origin (vmul BoxExtent (octant_offset i))) Extent"

definition two_tasks_overlapped ::
  "params \<Rightarrow> nat list \<Rightarrow> parent_ref \<Rightarrow> Node \<Rightarrow> FPointCloudPoint list \<Rightarrow> nat \<Rightarrow> nat
     \<Rightarrow> build_state \<Rightarrow> (Node \<times> build_state) option" where
  "two_tasks_overlapped P sched Parent this InPoints a b S =
     (case LocalBounds this of
        None \<Rightarrow> None
      | Some (Origin, BoxExtent) \<Rightarrow>
          (let Extent = vscale BoxExtent (1 / 2);
               Oa = child_origin Origin BoxExtent Extent a;
               Ob = child_origin Origin BoxExtent Extent b;
               d = GetDepth (Some (GetDepth Parent, Children this))
           in case Build_filter P (ReservedPoints S) d (vsub Oa Extent) (vadd Oa Extent)
                     (map Some InPoints) of
                None \<Rightarrow> None
              | Some TmpA \<Rightarrow>
                  (case Build_filter P (ReservedPoints S) d (vsub Ob Extent) (vadd Ob Extent)
                          (map Some InPoints) of
                     None \<Rightarrow> None
                   | Some TmpB \<Rightarrow>
                       (case Build_rest P sched (Some (GetDepth Parent, Children this))
                               Oa Extent TmpA S of
                          None \<Rightarrow> None
                        | Some (ChildA, kidsA, SA) \<Rightarrow>
                            (case Build_rest P sched
                                    (Some (GetDepth Parent, Children (link_child this ChildA kidsA)))
                                    Ob Extent TmpB SA of
                               None \<Rightarrow> None
                             | Some (ChildB, kidsB, SB) \<Rightarrow>
                                 Some (link_child (link_child this ChildA kidsA) ChildB kidsB,
                                       SB))))))"

subsection \<open>Invariants of the built tree\<close>

text \<open>
  A pair of predicates on nodes, indexed by depth, that the steps of a build maintain:
  \<open>I\<close> for a node under construction, \<open>K\<close> for a node in a child slot. A node that
  passed the test of line 72 starts with its LOD and bounds set and an empty cache;
  \<open>BuildIBCache\<close> extends its cache or that of the first slot of its parent; a child whose
  LOD is not the sentinel takes a slot.
\<close>

definition closed_under_build ::
  "params \<Rightarrow> (nat \<Rightarrow> Node \<Rightarrow> bool) \<Rightarrow> (nat \<Rightarrow> Node \<Rightarrow> bool) \<Rightarrow> bool" where
  "closed_under_build P I K \<longleftrightarrow>
     (\<forall>d Origin BoxExtent. int d \<le> MaxLOD P \<longrightarrow>
        I d (Node (nat ((MaxLOD P - int d) mod 2 ^ 32)) 0 [] [] 0 (Some (Origin, BoxExtent)))) \<and>
     (\<forall>d n l pts acc. I d n \<longrightarrow>
        IBCache_loop P l pts 0 (IBCache n, NumPrimitives n) = Some acc \<longrightarrow> I d (set_cache n acc)) \<and>
     (\<forall>d n l pts acc. K d n \<longrightarrow>
        IBCache_loop P l pts 0 (IBCache n, NumPrimitives n) = Some acc \<longrightarrow> K d (set_cache n acc)) \<and>
     (\<forall>d n. I d n \<longrightarrow> list_all (K (Suc d)) (Children n)) \<and>
     (\<forall>d n ks. I d n \<longrightarrow> list_all (K (Suc d)) ks \<longrightarrow> I d (set_children n ks)) \<and>
     (\<forall>d c k. I d c \<longrightarrow> LOD c \<noteq> UINT_MAX \<longrightarrow> K d (set_child_index c k))"

text \<open>
  The strides that let the sampling loop end: one per level, each at least 1 or plus
  infinity.
\<close>

definition strides_ok :: "params \<Rightarrow> bool" where
  "strides_ok P \<longleftrightarrow>
     length (SkipValues P) = nat (MaxLOD P + 1) \<and>
     (\<forall>d \<in> set (SkipValues P). d = PInf \<or> (\<exists>s. d = Fin s \<and> 1 \<le> s))"

text \<open>The cache holds one index per primitive, three with sprites.\<close>

definition ratio_ok :: "params \<Rightarrow> 32 word list \<times> nat \<Rightarrow> bool" where
  "ratio_ok P acc \<longleftrightarrow> length (fst acc) = (if bUsesSprites P then 3 * snd acc else snd acc)"

fun cache_ratio :: "params \<Rightarrow> Node \<Rightarrow> bool" where
  "cache_ratio P (Node lod np ib kids ci lb) \<longleftrightarrow>
     ratio_ok P (ib, np) \<and> (\<forall>c \<in> set kids. cache_ratio P c)"

text \<open>
  A node at depth \<open>d\<close> and all nodes below it have the LOD \<open>MaxLOD - depth\<close>, at a depth
  of at most \<open>MaxLOD\<close>.
\<close>

fun lod_ok :: "params \<Rightarrow> nat \<Rightarrow> Node \<Rightarrow> bool" where
  "lod_ok P d (Node lod np ib kids ci lb) \<longleftrightarrow>
     int d \<le> MaxLOD P \<and> int lod = MaxLOD P - int d \<and> (\<forall>c \<in> set kids. lod_ok P (Suc d) c)"

text \<open>No node in a child slot, at any depth below this node, has the sentinel LOD.\<close>

fun no_sentinel_child :: "Node \<Rightarrow> bool" where
  "no_sentinel_child (Node lod np ib kids ci lb) \<longleftrightarrow>
     (\<forall>c \<in> set kids. LOD c \<noteq> UINT_MAX \<and> no_sentinel_child c)"

subsection \<open>Concrete inputs\<close>

definition mk_point :: "rat \<Rightarrow> rat \<Rightarrow> rat \<Rightarrow> 32 word \<Rightarrow> FPointCloudPoint" where
  "mk_point x y z i = \<lparr>Location = \<lparr>X = x, Y = y, Z = z\<rparr>, VertexIndex = i\<rparr>"

text \<open>A \<^verbatim>\<open>powf\<close> that returns the binary32 value nearest to the exact power.\<close>

definition exact_powf :: "rat \<Rightarrow> nat \<Rightarrow> rat" where
  "exact_powf A B = f32 (A ^ B)"

definition ex_params :: "int \<Rightarrow> 16 word \<Rightarrow> params" where
  "ex_params m ub =
     \<lparr>SinglePolySpriteMinimumLOD = 1, MaxLOD = m, bUsesSprites = False,
      MinimumNodePointCount = 1, SkipValues = replicate (nat (m + 1)) (Fin 1),
      UndefinedShift = ub, Powf = exact_powf\<rparr>"

text \<open>The same with sprite mode on.\<close>

definition ex_sprite_params :: "int \<Rightarrow> params" where
  "ex_sprite_params m = (ex_params m 0)\<lparr>bUsesSprites := True\<rparr>"

definition ex_state :: "nat \<Rightarrow> nat \<Rightarrow> build_state" where
  "ex_state n levels =
     \<lparr>ReservedPoints = replicate n 0,
      Stats = replicate levels
                \<lparr>NumCells = 0, PointCount = 0, MinPointCount = 0, MaxPointCount = 0\<rparr>\<rparr>"

text \<open>A cloud with bounds of centre 0 and half-extent 2 on every axis.\<close>

definition ex_cloud :: "int \<Rightarrow> rat \<Rightarrow> FPointCloudPoint option list \<Rightarrow> UPointCloud" where
  "ex_cloud lods r pts =
     \<lparr>PC_SinglePolySpriteMinimumLOD = 1, PC_LODCount = lods, PC_UsesSprites = False,
      PC_MinimumNodePointCount = 1, PC_LODReduction = r, PC_PointCount = length pts,
      PC_DistanceThreshold = (\<lambda>i. 0), PC_EnabledPoints = pts,
      PC_BoundsOrigin = \<lparr>X = 0, Y = 0, Z = 0\<rparr>, PC_BoundsBoxExtent = \<lparr>X = 2, Y = 2, Z = 2\<rparr>\<rparr>"

definition ex_tree :: "16 word \<Rightarrow> FPointCloudOctree" where
  "ex_tree ub =
     \<lparr>Params = \<lparr>SinglePolySpriteMinimumLOD = 0, MaxLOD = 0, bUsesSprites = False,
                MinimumNodePointCount = 0, SkipValues = [], UndefinedShift = ub,
                Powf = exact_powf\<rparr>,
      State = \<lparr>ReservedPoints = [], Stats = []\<rparr>, DistanceThresholds = [],
      Root = Some (Node UINT_MAX 0 [] [] 0 None)\<rparr>"

text \<open>
  Three points: two corners of the bounds, and a point on the face that the octants 0
  and 1 of the root share.
\<close>

definition ex_points :: "FPointCloudPoint option list" where
  "ex_points =
     [Some (mk_point (- 2) (- 2) (- 2) 0), Some (mk_point 2 2 2 1),
      Some (mk_point 0 (- 1) (- 1) 2)]"

text \<open>
  Two points in the octants 0 and 1 of the octant 0 of the root, and the tree that
  \<open>Rebuild\<close> builds for them with three LOD levels: the second leaf is merged into the
  first.
\<close>

definition ex_points2 :: "FPointCloudPoint option list" where
  "ex_points2 =
     [Some (mk_point (- 3 / 2) (- 3 / 2) (- 3 / 2) 0), Some (mk_point (- 1 / 2) (- 3 / 2) (- 3 / 2) 1)]"

definition ex_built_root :: Node where
  "ex_built_root =
     Node 2 2 [0, 1]
       [Node 1 2 [0, 1]
          [Node 0 2 [0, 1] [] 0
             (Some (\<lparr>X = - 3 / 2, Y = - 3 / 2, Z = - 3 / 2\<rparr>, \<lparr>X = 1 / 2, Y = 1 / 2, Z = 1 / 2\<rparr>)),
           Node 0 0 [] [] 1
             (Some (\<lparr>X = - 1 / 2, Y = - 3 / 2, Z = - 3 / 2\<rparr>, \<lparr>X = 1 / 2, Y = 1 / 2, Z = 1 / 2\<rparr>))]
          0 (Some (\<lparr>X = - 1, Y = - 1, Z = - 1\<rparr>, \<lparr>X = 1, Y = 1, Z = 1\<rparr>))]
       0 (Some (\<lparr>X = 0, Y = 0, Z = 0\<rparr>, \<lparr>X = 2, Y = 2, Z = 2\<rparr>))"

definition ex_built :: FPointCloudOctree where
  "ex_built =
     \<lparr>Params = \<lparr>SinglePolySpriteMinimumLOD = 1, MaxLOD = 2, bUsesSprites = False,
                MinimumNodePointCount = 1, SkipValues = [Fin 1, Fin 1, Fin 1],
                UndefinedShift = 0, Powf = exact_powf\<rparr>,
      State = \<lparr>ReservedPoints = [],
                Stats = [\<lparr>NumCells = 1, PointCount = 2, MinPointCount = 2, MaxPointCount = 2\<rparr>,
                         \<lparr>NumCells = 1, PointCount = 2, MinPointCount = 2, MaxPointCount = 2\<rparr>,
                         \<lparr>NumCells = 2, PointCount = 1, MinPointCount = 1, MaxPointCount = 1\<rparr>]\<rparr>,
      DistanceThresholds = [0, 0, 0], Root = Some ex_built_root\<rparr>"

text \<open>
  The tree that \<open>Rebuild\<close> leaves for a cloud without points when the strides it
  computed are \<open>sv\<close>, one per LOD level.
\<close>

definition ex_empty_built :: "dbl list \<Rightarrow> FPointCloudOctree" where
  "ex_empty_built sv =
     \<lparr>Params = \<lparr>SinglePolySpriteMinimumLOD = 1, MaxLOD = int (length sv) - 1, bUsesSprites = False,
                MinimumNodePointCount = 1, SkipValues = sv, UndefinedShift = 0,
                Powf = exact_powf\<rparr>,
      State = \<lparr>ReservedPoints = [],
                Stats = replicate (length sv)
                          \<lparr>NumCells = 0, PointCount = 0, MinPointCount = 0, MaxPointCount = 0\<rparr>\<rparr>,
      DistanceThresholds = replicate (length sv) 0, Root = Some (Node UINT_MAX 0 [] [] 0 None)\<rparr>"

text \<open>The tree \<open>ex_built\<close> after a rebuild with an LOD count of 0: the root is destroyed.\<close>

definition ex_aborted :: FPointCloudOctree where
  "ex_aborted =
     \<lparr>Params = \<lparr>SinglePolySpriteMinimumLOD = 1, MaxLOD = - 1, bUsesSprites = False,
                MinimumNodePointCount = 1, SkipValues = [], UndefinedShift = 0,
                Powf = exact_powf\<rparr>,
      State = \<lparr>ReservedPoints = [], Stats = []\<rparr>,
      DistanceThresholds = [0, 0, 0], Root = None\<rparr>"

text \<open>
  The tree that \<open>Rebuild\<close> leaves for \<open>ex_points\<close> with two LOD levels; \<open>x\<close> is the centre,
  on the first axis, of the only child of the root.
\<close>

definition ex_built_order :: "rat \<Rightarrow> FPointCloudOctree" where
  "ex_built_order x =
     \<lparr>Params = \<lparr>SinglePolySpriteMinimumLOD = 1, MaxLOD = 1, bUsesSprites = False,
                MinimumNodePointCount = 1, SkipValues = [Fin 1, Fin 2], UndefinedShift = 0,
                Powf = exact_powf\<rparr>,
      State = \<lparr>ReservedPoints = [],
                Stats = [\<lparr>NumCells = 1, PointCount = 1, MinPointCount = 1, MaxPointCount = 1\<rparr>,
                         \<lparr>NumCells = 1, PointCount = 1, MinPointCount = 1, MaxPointCount = 1\<rparr>]\<rparr>,
      DistanceThresholds = [0, 0],
      Root = Some (Node 1 1 [2]
               [Node 0 1 [2] [] 0 (Some (\<lparr>X = x, Y = - 1, Z = - 1\<rparr>, \<lparr>X = 1, Y = 1, Z = 1\<rparr>))]
               0 (Some (\<lparr>X = 0, Y = 0, Z = 0\<rparr>, \<lparr>X = 2, Y = 2, Z = 2\<rparr>)))\<rparr>"

definition ex_root :: Node where
  "ex_root = Node 1 1 [2] [] 0 (Some (\<lparr>X = 0, Y = 0, Z = 0\<rparr>, \<lparr>X = 2, Y = 2, Z = 2\<rparr>))"

section \<open>Properties\<close>

subsection \<open>Evaluation on concrete inputs\<close>

lemma replicate_numeral: "replicate (numeral k) x = x # replicate (pred_numeral k) x"
  by (simp add: numeral_eq_Suc)

lemma floor_rat_div: "\<lfloor>(numeral a :: rat) / numeral b\<rfloor> = numeral a div numeral b"
  using floor_divide_of_int_eq[of "numeral a" "numeral b", where ?'a = rat] by simp

lemma floor_rat_one_div: "\<lfloor>(1 :: rat) / numeral b\<rfloor> = 1 div numeral b"
  using floor_divide_of_int_eq[of 1 "numeral b", where ?'a = rat] by simp

lemma ceiling_rat_div: "\<lceil>(numeral a :: rat) / numeral b\<rceil> = - (- numeral a div numeral b)"
  using floor_divide_of_int_eq[of "- numeral a" "numeral b", where ?'a = rat]
  by (simp add: ceiling_def)

lemmas round_defs = f32_def f64_def round_to_def expo_def rne_def compute_bitlen power_int_minus
  floor_rat_div floor_rat_one_div ceiling_rat_div

lemmas float_defs = round_defs dadd_def exact_powf_def Pow_def Let_def power_divide power_one_over

text \<open>Small multiples of a quarter are binary32 values, small integers are doubles.\<close>

lemma f32_vals:
  "f32 (- 4) = - 4"
  "f32 (- (15 / 4)) = - (15 / 4)"
  "f32 (- (7 / 2)) = - (7 / 2)"
  "f32 (- (13 / 4)) = - (13 / 4)"
  "f32 (- 3) = - 3"
  "f32 (- (11 / 4)) = - (11 / 4)"
  "f32 (- (5 / 2)) = - (5 / 2)"
  "f32 (- (9 / 4)) = - (9 / 4)"
  "f32 (- 2) = - 2"
  "f32 (- (7 / 4)) = - (7 / 4)"
  "f32 (- (3 / 2)) = - (3 / 2)"
  "f32 (- (5 / 4)) = - (5 / 4)"
  "f32 (- 1) = - 1"
  "f32 (- (3 / 4)) = - (3 / 4)"
  "f32 (- (1 / 2)) = - (1 / 2)"
  "f32 (- (1 / 4)) = - (1 / 4)"
  "f32 0 = 0"
  "f32 (1 / 4) = 1 / 4"
  "f32 (1 / 2) = 1 / 2"
  "f32 (3 / 4) = 3 / 4"
  "f32 1 = 1"
  "f32 (5 / 4) = 5 / 4"
  "f32 (3 / 2) = 3 / 2"
  "f32 (7 / 4) = 7 / 4"
  "f32 2 = 2"
  "f32 (9 / 4) = 9 / 4"
  "f32 (5 / 2) = 5 / 2"
  "f32 (11 / 4) = 11 / 4"
  "f32 3 = 3"
  "f32 (13 / 4) = 13 / 4"
  "f32 (7 / 2) = 7 / 2"
  "f32 (15 / 4) = 15 / 4"
  "f32 4 = 4"
  by (simp_all add: float_defs)

lemma f64_vals:
  "f64 0 = Fin 0"
  "f64 1 = Fin 1"
  "f64 2 = Fin 2"
  "f64 3 = Fin 3"
  "f64 4 = Fin 4"
  "f64 5 = Fin 5"
  "f64 6 = Fin 6"
  "f64 7 = Fin 7"
  "f64 8 = Fin 8"
  by (simp_all add: float_defs)

lemmas ex_defs = replicate_numeral mk_point_def ex_params_def ex_sprite_params_def ex_state_def
  ex_cloud_def
  ex_tree_def ex_points_def ex_root_def ex_points2_def ex_built_def ex_built_root_def
  ex_built_order_def ex_empty_built_def ex_aborted_def

lemmas eval_defs =
  GetDepth_def vsub_def vadd_def vmul_def vscale_def in_box_def off_faces_def IsPointUsed_def
  depth_bit_def SetPointUsed_def BuildIBCache_def merges_into_sibling_def IBCache_loop.simps
  IBCache_step_def set_cache_def slots_def AddStats_def Rebuild_def destroy_Root_def
  SkipValue_def Clamp_def
  GetMax_def CalculateDistanceThresholds_def octant_offset_def link_child_def set_children_def
  set_child_index_def UINT_MAX_def child_origin_def two_tasks_overlapped_def Let_def upt_rec
  Build.simps Build_rest.simps Subdivide.simps Subdivide_loop.simps Subdivide_Thread.simps
  f32_vals f64_vals dadd_def exact_powf_def Pow_def power_divide power_one_over

text \<open>The tree built for the two points of \<open>ex_points2\<close>.\<close>

lemma Rebuild_ex2:
  "Rebuild [0, 1, 2, 3, 4, 5, 6, 7] (ex_cloud 3 0 ex_points2) (ex_tree 0) = Some ([], ex_built)"
  by (simp add: eval_defs ex_defs)

subsection \<open>Rounding\<close>

text \<open>\<open>rne\<close> is within a half of its argument and keeps the order with the integers.\<close>

lemma rne_floor: "\<lfloor>x\<rfloor> \<le> rne x"
  by (simp add: rne_def Let_def)

lemma rne_ge_int: "of_int n \<le> x \<Longrightarrow> n \<le> rne x"
  using rne_floor[of x] by (simp add: le_floor_iff order_trans[of n "\<lfloor>x\<rfloor>"])

lemma rne_le_int:
  assumes "x \<le> of_int n"
  shows "rne x \<le> n"
proof (cases "x = of_int \<lfloor>x\<rfloor>")
  case True
  then have "rne x = \<lfloor>x\<rfloor>" by (simp add: rne_def Let_def)
  with assms show ?thesis by (simp add: floor_le_iff)
next
  case False
  then have "of_int \<lfloor>x\<rfloor> < x" using of_int_floor_le[of x] by (auto simp: less_le)
  with assms have "(of_int \<lfloor>x\<rfloor> :: rat) < of_int n" by simp
  then have "\<lfloor>x\<rfloor> < n" by (simp only: of_int_less_iff)
  moreover have "rne x \<le> \<lfloor>x\<rfloor> + 1" by (simp add: rne_def Let_def)
  ultimately show ?thesis by simp
qed

lemma rne_err: "\<bar>of_int (rne x) - x\<bar> \<le> 1 / 2"
proof -
  define d where "d = x - of_int \<lfloor>x\<rfloor>"
  have d: "0 \<le> d" "d < 1" unfolding d_def by linarith+
  have x: "x = of_int \<lfloor>x\<rfloor> + d" unfolding d_def by simp
  have "rne x = (if d < 1 / 2 then \<lfloor>x\<rfloor> else if 1 / 2 < d then \<lfloor>x\<rfloor> + 1
                 else if even \<lfloor>x\<rfloor> then \<lfloor>x\<rfloor> else \<lfloor>x\<rfloor> + 1)"
    by (simp add: rne_def Let_def d_def)
  then have "of_int (rne x) - x = (if d < 1 / 2 then - d else if 1 / 2 < d then 1 - d
                 else if even \<lfloor>x\<rfloor> then - d else 1 - d)"
    using x by (simp split: if_splits) 
  with d show ?thesis by (simp add: abs_if split: if_splits)
qed

text \<open>\<open>expo\<close> is the exponent of a positive number.\<close>

lemma two_power_le_of_int: "2 ^ k \<le> m \<Longrightarrow> (2::rat) ^ k \<le> of_int m"
  by simp

lemma of_int_le_two_power: "m \<le> 2 ^ k \<Longrightarrow> (of_int m :: rat) \<le> 2 ^ k"
  by simp

lemma expo_le:
  assumes "0 < x"
  shows "2 powi (expo x) \<le> x"
proof (cases "1 \<le> x")
  case True
  then have p: "0 < \<lfloor>x\<rfloor>" by simp
  from bitlen_bounds[OF p] have "2 ^ nat (bitlen \<lfloor>x\<rfloor> - 1) \<le> \<lfloor>x\<rfloor>" by simp
  then have "(2::rat) ^ nat (bitlen \<lfloor>x\<rfloor> - 1) \<le> of_int \<lfloor>x\<rfloor>"
    by (rule two_power_le_of_int)
  also have "\<dots> \<le> x" by simp
  finally have "(2::rat) ^ nat (bitlen \<lfloor>x\<rfloor> - 1) \<le> x" .
  moreover from p have "1 \<le> bitlen \<lfloor>x\<rfloor>" by (simp add: bitlen_alt_def)
  ultimately show ?thesis using True by (simp add: expo_def power_int_def)
next
  case False
  with assms have x1: "1 < 1 / x" by simp
  define n where "n = \<lceil>1 / x\<rceil>"
  from x1 have n2: "2 \<le> n" unfolding n_def by (simp add: le_ceiling_iff)
  then have p: "0 < n - 1" by simp
  from bitlen_bounds[OF p] have "n - 1 < 2 ^ nat (bitlen (n - 1))" by simp
  then have "n \<le> 2 ^ nat (bitlen (n - 1))" by simp
  then have "(of_int n :: rat) \<le> 2 ^ nat (bitlen (n - 1))"
    by (rule of_int_le_two_power)
  moreover have "1 / x \<le> of_int n" unfolding n_def by simp
  ultimately have "1 / x \<le> 2 ^ nat (bitlen (n - 1))" by (rule order_trans[rotated])
  with assms have "1 / 2 ^ nat (bitlen (n - 1)) \<le> x"
    by (simp add: field_simps)
  moreover from p have "1 \<le> bitlen (n - 1)" by (simp add: bitlen_alt_def)
  ultimately show ?thesis using False
    by (simp add: expo_def n_def power_int_def inverse_eq_divide power_one_over)
qed

lemma expo_gt:
  assumes "0 < x"
  shows "x < 2 powi (expo x + 1)"
proof (cases "1 \<le> x")
  case True
  then have p: "0 < \<lfloor>x\<rfloor>" by simp
  from bitlen_bounds[OF p] have "\<lfloor>x\<rfloor> + 1 \<le> 2 ^ nat (bitlen \<lfloor>x\<rfloor>)" by simp
  then have "(of_int (\<lfloor>x\<rfloor> + 1) :: rat) \<le> 2 ^ nat (bitlen \<lfloor>x\<rfloor>)"
    by (rule of_int_le_two_power)
  moreover have "x < of_int (\<lfloor>x\<rfloor> + 1)" by simp linarith
  ultimately have "x < 2 ^ nat (bitlen \<lfloor>x\<rfloor>)" by (rule less_le_trans[rotated])
  moreover have "0 \<le> bitlen \<lfloor>x\<rfloor>" by (rule bitlen_nonneg)
  ultimately show ?thesis using True by (simp add: expo_def power_int_def)
next
  case False
  with assms have x1: "1 < 1 / x" by simp
  define n where "n = \<lceil>1 / x\<rceil>"
  from x1 have n2: "2 \<le> n" unfolding n_def by (simp add: le_ceiling_iff)
  then have p: "0 < n - 1" by simp
  then have b1: "1 \<le> bitlen (n - 1)" by (simp add: bitlen_alt_def)
  from bitlen_bounds[OF p] have "2 ^ nat (bitlen (n - 1) - 1) \<le> n - 1" by simp
  then have "(2::rat) ^ nat (bitlen (n - 1) - 1) \<le> of_int (n - 1)"
    by (rule two_power_le_of_int)
  moreover have "of_int (n - 1) < 1 / x" unfolding n_def by simp linarith
  ultimately have "(2::rat) ^ nat (bitlen (n - 1) - 1) < 1 / x" by (rule le_less_trans)
  with assms have lt: "x < 1 / 2 ^ nat (bitlen (n - 1) - 1)"
    by (simp add: field_simps)
  have "expo x + 1 = - (bitlen (n - 1) - 1)"
    using False by (simp add: expo_def n_def)
  moreover have "(2::rat) powi (- (bitlen (n - 1) - 1)) = 1 / 2 ^ nat (bitlen (n - 1) - 1)"
    using b1 by (simp add: power_int_minus power_int_def inverse_eq_divide power_one_over)
  ultimately show ?thesis using lt by simp
qed

lemma pow2_less_iff: "(2::rat) powi a < 2 powi b \<longleftrightarrow> a < b"
proof
  assume l: "(2::rat) powi a < 2 powi b"
  show "a < b"
  proof (rule ccontr)
    assume "\<not> a < b"
    then have "b \<le> a" by simp
    then have "(2::rat) powi b \<le> 2 powi a" by (intro power_int_increasing) simp_all
    with l show False by simp
  qed
next
  assume "a < b"
  then show "(2::rat) powi a < 2 powi b" by (intro power_int_strict_increasing) simp_all
qed

lemma pow2_le_iff: "(2::rat) powi a \<le> 2 powi b \<longleftrightarrow> a \<le> b"
  using pow2_less_iff[of b a] by (simp add: not_less[symmetric])

lemma pow2_add: "(2::rat) powi (a + b) = 2 powi a * 2 powi b"
  by (simp add: power_int_add)

lemma pow2_pos: "(0::rat) < 2 powi a"
  by simp

text \<open>Rounding keeps a value inside the powers of two that bound it.\<close>

lemma round_to_pos:
  assumes "0 < x"
  shows "round_to p emin x =
           of_int (rne (x / 2 powi (max (expo x) emin - int p + 1))) *
             2 powi (max (expo x) emin - int p + 1)"
  using assms by (simp add: round_to_def Let_def)

lemma round_to_nonneg:
  assumes "0 \<le> x"
  shows "0 \<le> round_to p emin x"
proof (cases "x = 0")
  case True
  then show ?thesis by (simp add: round_to_def)
next
  case False
  with assms have x: "0 < x" by simp
  let ?q = "(2::rat) powi (max (expo x) emin - int p + 1)"
  have q: "0 < ?q" by (rule pow2_pos)
  with x have "of_int 0 \<le> x / ?q" by simp
  then have "0 \<le> rne (x / ?q)" by (rule rne_ge_int)
  with q show ?thesis by (simp add: round_to_pos[OF x])
qed

lemma round_to_ge_pow2:
  assumes k: "2 powi k \<le> x" and e: "emin \<le> k" and p: "0 < p"
  shows "2 powi k \<le> round_to p emin x"
proof -
  from pow2_pos k have x: "0 < x" by (rule less_le_trans)
  let ?e = "expo x"
  let ?q = "(2::rat) powi (?e - int p + 1)"
  have q: "0 < ?q" by (rule pow2_pos)
  from k expo_gt[OF x] have "(2::rat) powi k < 2 powi (?e + 1)" by (rule le_less_trans)
  then have ke: "k \<le> ?e" by (simp add: pow2_less_iff)
  with e have m: "max ?e emin = ?e" by simp
  have split: "(2::rat) powi ?e = 2 powi (int (p - 1)) * ?q"
    using p by (simp flip: pow2_add add: of_nat_diff)
  with expo_le[OF x] q have "2 powi (int (p - 1)) \<le> x / ?q"
    by (simp add: pos_le_divide_eq)
  then have "of_int (2 ^ (p - 1)) \<le> x / ?q" by simp
  then have "2 ^ (p - 1) \<le> rne (x / ?q)" by (rule rne_ge_int)
  then have "(of_int (2 ^ (p - 1)) :: rat) \<le> of_int (rne (x / ?q))" by (simp only: of_int_le_iff)
  with q have "of_int (2 ^ (p - 1)) * ?q \<le> of_int (rne (x / ?q)) * ?q"
    by (simp add: mult_right_mono)
  with split have "2 powi ?e \<le> round_to p emin x"
    by (simp add: round_to_pos[OF x] m)
  moreover from ke have "(2::rat) powi k \<le> 2 powi ?e" by (simp add: pow2_le_iff)
  ultimately show ?thesis by simp
qed

lemma round_to_le_pow2:
  assumes x0: "0 \<le> x" and k: "x \<le> 2 powi k" and e: "emin \<le> k + int p - 1" and p: "0 < p"
  shows "round_to p emin x \<le> 2 powi k"
proof (cases "x = 0")
  case True
  then show ?thesis by (simp add: round_to_def)
next
  case False
  with x0 have x: "0 < x" by simp
  let ?E = "max (expo x) emin"
  let ?q = "(2::rat) powi (?E - int p + 1)"
  have q: "0 < ?q" by (rule pow2_pos)
  from expo_le[OF x] k have "(2::rat) powi (expo x) \<le> 2 powi k" by (rule order_trans)
  then have "expo x \<le> k" by (simp add: pow2_le_iff)
  with e p have "0 \<le> k - ?E + int p - 1" by (simp add: max_def)
  then obtain n where n: "k - ?E + int p - 1 = int n" by (rule nonneg_int_cases)
  then have "k = int n + (?E - int p + 1)" by simp
  then have split: "(2::rat) powi k = 2 ^ n * ?q"
    by (simp only: pow2_add power_int_of_nat)
  with k q have "x / ?q \<le> 2 ^ n"
    by (simp add: pos_divide_le_eq)
  then have "x / ?q \<le> of_int (2 ^ n)" by simp
  then have "rne (x / ?q) \<le> 2 ^ n" by (rule rne_le_int)
  then have "(of_int (rne (x / ?q)) :: rat) \<le> of_int (2 ^ n)"
    by (simp only: of_int_le_iff)
  with q have "of_int (rne (x / ?q)) * ?q \<le> of_int (2 ^ n) * ?q"
    by (simp add: mult_right_mono)
  with split show ?thesis
    by (simp add: round_to_pos[OF x])
qed

lemma round_to_err:
  assumes x: "0 < x" and k: "x < 2 powi k" and e: "emin < k"
  shows "\<bar>round_to p emin x - x\<bar> \<le> 2 powi (k - int p - 1)"
proof -
  let ?E = "max (expo x) emin"
  let ?q = "(2::rat) powi (?E - int p + 1)"
  have q: "0 < ?q" by (rule pow2_pos)
  from expo_le[OF x] k have "(2::rat) powi (expo x) < 2 powi k" by (rule le_less_trans)
  then have "expo x < k" by (simp add: pow2_less_iff)
  with e have "?E - int p + 1 \<le> k - int p" by simp
  then have qk: "?q \<le> 2 powi (k - int p)" by (simp add: pow2_le_iff)
  have "round_to p emin x - x = (of_int (rne (x / ?q)) - x / ?q) * ?q"
    using q by (simp add: round_to_pos[OF x] algebra_simps)
  then have "\<bar>round_to p emin x - x\<bar> = \<bar>of_int (rne (x / ?q)) - x / ?q\<bar> * ?q"
    using q by (simp add: abs_mult)
  also have "\<dots> \<le> 1 / 2 * ?q"
    using q rne_err[of "x / ?q"] by (intro mult_right_mono) simp_all
  also have "\<dots> \<le> 1 / 2 * 2 powi (k - int p)"
    using qk by simp
  also have "\<dots> = 2 powi (k - int p - 1)"
    by (simp add: power_int_diff)
  finally show ?thesis .
qed

subsection \<open>The sampling loop\<close>

lemma IBCache_step_ratio: "ratio_ok P acc \<Longrightarrow> ratio_ok P (IBCache_step P lod vi acc)"
  by (simp add: ratio_ok_def IBCache_step_def Let_def)

lemma IBCache_loop_ratio:
  assumes run: "IBCache_loop P lod pts i acc = Some acc'" and r: "ratio_ok P acc"
  shows "ratio_ok P acc'"
proof -
  define Q :: "(((params \<times> nat) \<times> FPointCloudPoint list) \<times> rat) \<times> (32 word list \<times> nat)
      \<Rightarrow> 32 word list \<times> nat \<Rightarrow> bool"
    where "Q = (\<lambda>x y. ratio_ok (fst (fst (fst (fst x)))) (snd x) \<longrightarrow> ratio_ok (fst (fst (fst (fst x)))) y)"
  have "Q ((((P, lod), pts), i), acc) acc'"
  proof (rule IBCache_loop.raw_induct[OF _ run])
    fix loop P lod InPoints i acc y
    assume IH: "\<And>lod InPoints i acc b y. loop lod InPoints i acc b = Some y \<Longrightarrow>
        Q ((((lod, InPoints), i), acc), b) y"
      and eq: "(if i < rat_of_nat (length InPoints)
        then if i \<le> - 1 \<or> length InPoints \<le> nat \<lfloor>i\<rfloor> then None
           else if lod < length (SkipValues P)
                then case dadd i (SkipValues P ! lod) of
                     Fin i' \<Rightarrow> loop P lod InPoints i'
                        (IBCache_step P lod (VertexIndex (InPoints ! nat \<lfloor>i\<rfloor>)) acc)
                     | PInf \<Rightarrow> Some (IBCache_step P lod (VertexIndex (InPoints ! nat \<lfloor>i\<rfloor>)) acc)
                     | NInf \<Rightarrow> None
                else None
        else Some acc) = Some y"
    show "Q ((((P, lod), InPoints), i), acc) y"
    proof (cases "i < rat_of_nat (length InPoints)")
      case False
      with eq show ?thesis by (simp add: Q_def)
    next
      case True
      show ?thesis
      proof (cases "dadd i (SkipValues P ! lod)")
        case PInf
        with eq True show ?thesis
          by (auto simp: Q_def split: if_splits intro: IBCache_step_ratio)
      next
        case NInf
        with eq True show ?thesis
          by (simp split: if_splits)
      next
        case (Fin i')
        with eq True have "loop P lod InPoints i'
              (IBCache_step P lod (VertexIndex (InPoints ! nat \<lfloor>i\<rfloor>)) acc) = Some y"
          by (simp split: if_splits)
        from IH[OF this] show ?thesis
          by (simp add: Q_def IBCache_step_ratio)
      qed
    qed
  qed
  with r show ?thesis by (simp add: Q_def)
qed

subsection \<open>Invariants maintained by the recursion\<close>

lemmas cubD = iffD1[OF closed_under_build_def]
lemmas cub_fresh = cubD[THEN conjunct1, rule_format]
lemmas cub_own = cubD[THEN conjunct2, THEN conjunct1, rule_format]
lemmas cub_merged = cubD[THEN conjunct2, THEN conjunct2, THEN conjunct1, rule_format]
lemmas cub_kids = cubD[THEN conjunct2, THEN conjunct2, THEN conjunct2, THEN conjunct1, rule_format]
lemmas cub_relink = cubD[THEN conjunct2, THEN conjunct2, THEN conjunct2, THEN conjunct2, THEN conjunct1, rule_format]
lemmas cub_slot = cubD[THEN conjunct2, THEN conjunct2, THEN conjunct2, THEN conjunct2, THEN conjunct2, rule_format]

lemma build_invariant:
  fixes I K :: "nat \<Rightarrow> Node \<Rightarrow> bool"
  shows "Build P sched Parent Origin BoxExtent InPoints S = Some (n, ks, S') \<Longrightarrow>
           closed_under_build P I K \<Longrightarrow> int (GetDepth Parent) \<le> MaxLOD P \<Longrightarrow>
           list_all (K (GetDepth Parent)) (slots Parent) \<Longrightarrow>
           (n = Node UINT_MAX 0 [] [] 0 None \<or> I (GetDepth Parent) n) \<and>
           list_all (K (GetDepth Parent)) ks"
    and "Build_rest P sched Parent Origin BoxExtent TmpPoints S = Some (n, ks, S') \<Longrightarrow>
           closed_under_build P I K \<Longrightarrow> int (GetDepth Parent) \<le> MaxLOD P \<Longrightarrow>
           list_all (K (GetDepth Parent)) (slots Parent) \<Longrightarrow>
           (n = Node UINT_MAX 0 [] [] 0 None \<or> I (GetDepth Parent) n) \<and>
           list_all (K (GetDepth Parent)) ks"
    and "Subdivide P sched Parent this Pts S = Some (this', S') \<Longrightarrow>
           closed_under_build P I K \<Longrightarrow> int (GetDepth Parent) \<le> MaxLOD P \<Longrightarrow>
           I (GetDepth Parent) this \<Longrightarrow> I (GetDepth Parent) this'"
    and "Subdivide_loop P sched Parent todo ChildBoxExtent this Pts S = Some (this', S') \<Longrightarrow>
           closed_under_build P I K \<Longrightarrow> int (GetDepth Parent) < MaxLOD P \<Longrightarrow>
           I (GetDepth Parent) this \<Longrightarrow> I (GetDepth Parent) this'"
    and "Subdivide_Thread P sched Parent this Pts Extent Offset S = Some (this', S') \<Longrightarrow>
           closed_under_build P I K \<Longrightarrow> int (GetDepth Parent) < MaxLOD P \<Longrightarrow>
           I (GetDepth Parent) this \<Longrightarrow> I (GetDepth Parent) this'"
proof (induction P sched Parent Origin BoxExtent InPoints S
    and P sched Parent Origin BoxExtent TmpPoints S
    and P sched Parent this Pts S
    and P sched Parent todo ChildBoxExtent this Pts S
    and P sched Parent this Pts Extent Offset S
    arbitrary: n ks S' and n ks S' and this' S' and this' S' and this' S'
    rule: Build_Build_rest_Subdivide_Subdivide_loop_Subdivide_Thread.induct)
  case (1 P sched Parent Origin BoxExtent InPoints S)
  then show ?case
    by (auto simp: Build.simps split: option.splits)
next
  case (2 P sched Parent Origin BoxExtent TmpPoints S)
  show ?case
  proof (cases "MinimumNodePointCount P \<le> int (length TmpPoints)")
    case False
    with "2.prems" show ?thesis
      by (auto simp: Build_rest.simps)
  next
    case True
    with "2.prems"(1) obtain RP stored this St this1 where
      res: "apply_reservations P (GetDepth Parent) (map VertexIndex TmpPoints) (ReservedPoints S) = Some RP"
      and ib: "BuildIBCache P (Node (nat ((MaxLOD P - int (GetDepth Parent)) mod 2 ^ 32)) 0 [] [] 0
                 (Some (Origin, BoxExtent))) Parent TmpPoints = Some (stored, this, ks)"
      and st: "AddStats P (GetDepth Parent) (NumPrimitives this) (Stats S) = Some St"
      and sub: "Subdivide P sched Parent this TmpPoints \<lparr>ReservedPoints = RP, Stats = St\<rparr> = Some (n, S')"
      by (auto simp: Build_rest.simps split: option.splits)
    let ?d = "GetDepth Parent"
    let ?fresh = "Node (nat ((MaxLOD P - int ?d) mod 2 ^ 32)) 0 [] [] 0 (Some (Origin, BoxExtent))"
    from "2.prems" have cl: "closed_under_build P I K" and d: "int ?d \<le> MaxLOD P"
      and sl: "list_all (K ?d) (slots Parent)" by simp_all
    from cl d have fr: "I ?d ?fresh" by (rule cub_fresh)
    have "I ?d this \<and> list_all (K ?d) ks"
    proof (cases "merges_into_sibling P ?fresh Parent")
      case True
      with ib obtain c cs acc where sp: "slots Parent = c # cs"
        and lp: "IBCache_loop P (LOD ?fresh) TmpPoints 0 (IBCache c, NumPrimitives c) = Some acc"
        and eq: "this = ?fresh" "ks = set_cache c acc # cs"
        by (auto simp: BuildIBCache_def split: list.splits option.splits)
      from sl sp have "K ?d c" "list_all (K ?d) cs" by simp_all
      moreover from cl \<open>K ?d c\<close> lp have "K ?d (set_cache c acc)"
        by (rule cub_merged)
      ultimately show ?thesis using fr eq by simp
    next
      case False
      with ib obtain acc where
        lp: "IBCache_loop P (LOD ?fresh) TmpPoints 0 (IBCache ?fresh, NumPrimitives ?fresh) = Some acc"
        and eq: "this = set_cache ?fresh acc" "ks = slots Parent"
        by (auto simp: BuildIBCache_def split: option.splits)
      from cl fr lp have "I ?d (set_cache ?fresh acc)"
        by (rule cub_own)
      with eq sl show ?thesis by simp
    qed
    moreover from this "2.IH"[OF True res ib refl refl st sub cl d] have "I ?d n" by simp
    ultimately show ?thesis by simp
  qed
next
  case (3 P sched Parent this Pts S)
  show ?case
  proof (cases "int (GetDepth Parent) < MaxLOD P")
    case False
    with "3.prems" show ?thesis by (simp add: Subdivide.simps)
  next
    case True
    with "3.prems"(1) obtain Origin BoxExtent where
      lb: "LocalBounds this = Some (Origin, BoxExtent)"
      and lp: "Subdivide_loop P sched Parent
               (if Parent = None then sched else [0, 1, 2, 3, 4, 5, 6, 7])
               (vscale BoxExtent (1 / 2)) this Pts S = Some (this', S')"
      by (auto simp: Subdivide.simps split: option.splits)
    from "3.IH"[OF True lb refl lp] "3.prems" True show ?thesis by simp
  qed
next
  case (4 P sched Parent ChildBoxExtent this Pts S)
  then show ?case by (simp add: Subdivide_loop.simps)
next
  case (5 P sched Parent i todo ChildBoxExtent this Pts S)
  from "5.prems"(1) obtain this1 S1 where
    th: "Subdivide_Thread P sched Parent this Pts ChildBoxExtent (octant_offset i) S = Some (this1, S1)"
    and lp: "Subdivide_loop P sched Parent todo ChildBoxExtent this1 Pts S1 = Some (this', S')"
    by (auto simp: Subdivide_loop.simps split: option.splits)
  from "5.IH"(1)[OF th] "5.prems" have "I (GetDepth Parent) this1" by simp
  with "5.IH"(2)[OF th refl lp] "5.prems" show ?case by simp
next
  case (6 P sched Parent this Pts Extent Offset S)
  let ?d = "GetDepth Parent"
  let ?Par = "Some (?d, Children this)"
  from "6.prems"(1) obtain Origin BoxExtent Child ks S1 where
    lb: "LocalBounds this = Some (Origin, BoxExtent)"
    and b: "Build P sched ?Par (vsub (vadd Origin (vmul BoxExtent Offset)) Extent) Extent
              (map Some Pts) S = Some (Child, ks, S1)"
    and eq: "this' = link_child this Child ks"
    by (auto simp: Subdivide_Thread.simps split: option.splits)
  from "6.prems" have cl: "closed_under_build P I K" and d: "int ?d < MaxLOD P"
    and th: "I ?d this" by simp_all
  have gd: "GetDepth ?Par = Suc ?d" by (simp add: GetDepth_def)
  from cl th have "list_all (K (Suc ?d)) (Children this)"
    by (rule cub_kids)
  with "6.IH"[OF lb refl b cl] d gd
  have ch: "Child = Node UINT_MAX 0 [] [] 0 None \<or> I (Suc ?d) Child"
    and ks: "list_all (K (Suc ?d)) ks"
    by (simp_all add: slots_def)
  show ?case
  proof (cases "LOD Child = UINT_MAX")
    case True
    with eq have "this' = set_children this ks" by (simp add: link_child_def)
    with cub_relink[OF cl th ks] show ?thesis by simp
  next
    case False
    with ch have "I (Suc ?d) Child" by auto
    with cl have "K (Suc ?d) (set_child_index Child (length ks))"
      using False by (rule cub_slot)
    with ks have "list_all (K (Suc ?d)) (ks @ [set_child_index Child (length ks)])" by simp
    moreover from False eq have "this' = set_children this (ks @ [set_child_index Child (length ks)])"
      by (simp add: link_child_def)
    ultimately show ?thesis using cub_relink[OF cl th] by simp
  qed
qed

text \<open>The three invariants of the claims are maintained.\<close>

lemma set_cache_sel [simp]:
  "LOD (set_cache n acc) = LOD n" "NumPrimitives (set_cache n acc) = snd acc"
  "IBCache (set_cache n acc) = fst acc" "Children (set_cache n acc) = Children n"
  "ChildIndex (set_cache n acc) = ChildIndex n" "LocalBounds (set_cache n acc) = LocalBounds n"
  by (simp_all add: set_cache_def)

lemma set_children_sel [simp]:
  "LOD (set_children n ks) = LOD n" "NumPrimitives (set_children n ks) = NumPrimitives n"
  "IBCache (set_children n ks) = IBCache n" "Children (set_children n ks) = ks"
  "ChildIndex (set_children n ks) = ChildIndex n" "LocalBounds (set_children n ks) = LocalBounds n"
  by (simp_all add: set_children_def)

lemma set_child_index_sel [simp]:
  "LOD (set_child_index n k) = LOD n" "NumPrimitives (set_child_index n k) = NumPrimitives n"
  "IBCache (set_child_index n k) = IBCache n" "Children (set_child_index n k) = Children n"
  "ChildIndex (set_child_index n k) = k" "LocalBounds (set_child_index n k) = LocalBounds n"
  by (simp_all add: set_child_index_def)

lemma closed_cache_ratio: "closed_under_build P (\<lambda>d. cache_ratio P) (\<lambda>d. cache_ratio P)"
  unfolding closed_under_build_def
proof (intro conjI allI impI)
  fix d Origin BoxExtent
  show "cache_ratio P (Node (nat ((MaxLOD P - int d) mod 2 ^ 32)) 0 [] [] 0 (Some (Origin, BoxExtent)))"
    by (simp add: ratio_ok_def)
next
  fix d :: nat and n l pts acc
  assume "cache_ratio P n" "IBCache_loop P l pts 0 (IBCache n, NumPrimitives n) = Some acc"
  then show "cache_ratio P (set_cache n acc)"
    using IBCache_loop_ratio[of P l pts 0 "(IBCache n, NumPrimitives n)" acc]
    by (cases n) (simp add: set_cache_def)
next
  fix d :: nat and n l pts acc
  assume "cache_ratio P n" "IBCache_loop P l pts 0 (IBCache n, NumPrimitives n) = Some acc"
  then show "cache_ratio P (set_cache n acc)"
    using IBCache_loop_ratio[of P l pts 0 "(IBCache n, NumPrimitives n)" acc]
    by (cases n) (simp add: set_cache_def)
next
  fix d :: nat and n
  assume "cache_ratio P n"
  then show "list_all (cache_ratio P) (Children n)" by (cases n) (simp add: list_all_iff)
next
  fix d :: nat and n ks
  assume "cache_ratio P n" "list_all (cache_ratio P) ks"
  then show "cache_ratio P (set_children n ks)" by (cases n) (simp add: list_all_iff set_children_def)
next
  fix d :: nat and c k
  assume "cache_ratio P c"
  then show "cache_ratio P (set_child_index c k)" by (cases c) (simp add: set_child_index_def)
qed

lemma closed_lod_ok:
  assumes "MaxLOD P < 2 ^ 32"
  shows "closed_under_build P (lod_ok P) (lod_ok P)"
  unfolding closed_under_build_def
proof (intro conjI allI impI)
  fix d Origin BoxExtent
  assume "int d \<le> MaxLOD P"
  with assms have "(MaxLOD P - int d) mod 2 ^ 32 = MaxLOD P - int d"
    by (intro mod_pos_pos_trivial) simp_all
  with \<open>int d \<le> MaxLOD P\<close>
  show "lod_ok P d (Node (nat ((MaxLOD P - int d) mod 2 ^ 32)) 0 [] [] 0 (Some (Origin, BoxExtent)))"
    by simp
next
  fix d n l pts acc
  assume "lod_ok P d n"
  then show "lod_ok P d (set_cache n acc)" by (cases n) (simp add: set_cache_def)
next
  fix d n l pts acc
  assume "lod_ok P d n"
  then show "lod_ok P d (set_cache n acc)" by (cases n) (simp add: set_cache_def)
next
  fix d n
  assume "lod_ok P d n"
  then show "list_all (lod_ok P (Suc d)) (Children n)" by (cases n) (simp add: list_all_iff)
next
  fix d n ks
  assume "lod_ok P d n" "list_all (lod_ok P (Suc d)) ks"
  then show "lod_ok P d (set_children n ks)" by (cases n) (simp add: list_all_iff set_children_def)
next
  fix d c k
  assume "lod_ok P d c"
  then show "lod_ok P d (set_child_index c k)" by (cases c) (simp add: set_child_index_def)
qed

lemma closed_no_sentinel:
  "closed_under_build P (\<lambda>d. no_sentinel_child) (\<lambda>d n. LOD n \<noteq> UINT_MAX \<and> no_sentinel_child n)"
  unfolding closed_under_build_def
proof (intro conjI allI impI)
  fix n acc
  assume "no_sentinel_child n"
  then show "no_sentinel_child (set_cache n acc)" by (cases n) (simp add: set_cache_def)
next
  fix n acc
  assume "LOD n \<noteq> UINT_MAX \<and> no_sentinel_child n"
  then show "LOD (set_cache n acc) \<noteq> UINT_MAX" by simp
next
  fix n acc
  assume "LOD n \<noteq> UINT_MAX \<and> no_sentinel_child n"
  then show "no_sentinel_child (set_cache n acc)" by (cases n) (simp add: set_cache_def)
next
  fix n
  assume "no_sentinel_child n"
  then show "list_all (\<lambda>n. LOD n \<noteq> UINT_MAX \<and> no_sentinel_child n) (Children n)"
    by (cases n) (simp add: list_all_iff)
next
  fix n ks
  assume "list_all (\<lambda>n. LOD n \<noteq> UINT_MAX \<and> no_sentinel_child n) ks"
  then show "no_sentinel_child (set_children n ks)" by (cases n) (simp add: list_all_iff set_children_def)
next
  fix c k
  assume "no_sentinel_child c"
  then show "no_sentinel_child (set_child_index c k)" by (cases c) (simp add: set_child_index_def)
qed simp_all

text \<open>What a rebuild that left a root has done.\<close>

lemma Rebuild_Root:
  assumes "Rebuild sched PC T = Some (lg, T')" and "Root T' = Some r"
  shows "0 \<le> MaxLOD (Params T') \<and> lg = [] \<and> MaxLOD (Params T') = PC_LODCount PC - 1 \<and>
         MinimumNodePointCount (Params T') = PC_MinimumNodePointCount PC \<and>
         (\<exists>ks S3. Build (Params T') sched None (PC_BoundsOrigin PC)
             \<lparr>X = GetMax (PC_BoundsBoxExtent PC), Y = GetMax (PC_BoundsBoxExtent PC),
              Z = GetMax (PC_BoundsBoxExtent PC)\<rparr> (PC_EnabledPoints PC)
             \<lparr>ReservedPoints = replicate (PC_PointCount PC) 0,
              Stats = replicate (nat (PC_LODCount PC - 1 + 1))
                        \<lparr>NumCells = 0, PointCount = 0, MinPointCount = 0, MaxPointCount = 0\<rparr>\<rparr>
             = Some (r, ks, S3))"
proof -
  from assms(1) obtain T0 where d: "destroy_Root T = Some T0"
    by (auto simp: Rebuild_def split: option.splits)
  then have r0: "Root T0 = None"
    by (auto simp: destroy_Root_def split: option.splits if_splits)
  show ?thesis
  proof (cases "PC_LODCount PC - 1 < 0")
    case True
    with assms d r0 show ?thesis by (auto simp: Rebuild_def Let_def)
  next
    case False
    let ?P = "(Params T0)\<lparr>SkipValues := [],
                  SinglePolySpriteMinimumLOD := PC_SinglePolySpriteMinimumLOD PC,
                  MaxLOD := PC_LODCount PC - 1,
                  bUsesSprites := PC_UsesSprites PC,
                  MinimumNodePointCount := PC_MinimumNodePointCount PC\<rparr>"
    let ?P2 = "?P\<lparr>SkipValues := map (SkipValue ?P (PC_LODReduction PC)) [0..<nat (PC_LODCount PC - 1 + 1)]\<rparr>"
    from False assms(1) d obtain rt ks S3 where
      b: "Build ?P2 sched None (PC_BoundsOrigin PC)
               \<lparr>X = GetMax (PC_BoundsBoxExtent PC), Y = GetMax (PC_BoundsBoxExtent PC),
                Z = GetMax (PC_BoundsBoxExtent PC)\<rparr> (PC_EnabledPoints PC)
               \<lparr>ReservedPoints = replicate (PC_PointCount PC) 0,
                Stats = replicate (nat (PC_LODCount PC - 1 + 1))
                          \<lparr>NumCells = 0, PointCount = 0, MinPointCount = 0, MaxPointCount = 0\<rparr>\<rparr>
             = Some (rt, ks, S3)"
      and t: "T' = \<lparr>Params = ?P2, State = S3\<lparr>ReservedPoints := []\<rparr>,
                  DistanceThresholds = CalculateDistanceThresholds PC (DistanceThresholds T0),
                  Root = Some rt\<rparr>"
      and l: "lg = []"
      by (simp add: Rebuild_def Let_def split: option.splits prod.splits)
    from t assms(2) have "rt = r" by simp
    with b t l False show ?thesis by auto
  qed
qed

text \<open>\<open>Subdivide\<close> only changes the child slots of a node.\<close>

lemma Subdivide_Thread_own:
  "Subdivide_Thread P sched Parent this Pts Extent Offset S = Some (this', S') \<Longrightarrow>
   LOD this' = LOD this \<and> NumPrimitives this' = NumPrimitives this \<and> IBCache this' = IBCache this \<and>
   LocalBounds this' = LocalBounds this"
  by (auto simp: Subdivide_Thread.simps link_child_def split: option.splits)

lemma Subdivide_loop_own:
  "Subdivide_loop P sched Parent todo CE this Pts S = Some (this', S') \<Longrightarrow>
   LOD this' = LOD this \<and> NumPrimitives this' = NumPrimitives this \<and> IBCache this' = IBCache this \<and>
   LocalBounds this' = LocalBounds this"
proof (induction todo arbitrary: this S)
  case Nil
  then show ?case by (simp add: Subdivide_loop.simps)
next
  case (Cons i todo)
  from Cons.prems obtain this1 S1 where
    th: "Subdivide_Thread P sched Parent this Pts CE (octant_offset i) S = Some (this1, S1)"
    and lp: "Subdivide_loop P sched Parent todo CE this1 Pts S1 = Some (this', S')"
    by (auto simp: Subdivide_loop.simps split: option.splits)
  from Cons.IH[OF lp] Subdivide_Thread_own[OF th] show ?case by simp
qed

lemma Subdivide_own:
  "Subdivide P sched Parent this Pts S = Some (this', S') \<Longrightarrow>
   LOD this' = LOD this \<and> NumPrimitives this' = NumPrimitives this \<and> IBCache this' = IBCache this \<and>
   LocalBounds this' = LocalBounds this"
  by (auto simp: Subdivide.simps split: if_splits option.splits dest: Subdivide_loop_own)

subsection \<open>The build returns\<close>

lemma f32_unit:
  assumes "0 \<le> y" and "y \<le> 1"
  shows "0 \<le> f32 y \<and> f32 y \<le> 1"
proof -
  from assms(2) have "y \<le> 2 powi 0" by simp
  from round_to_le_pow2[OF assms(1) this, of "- 126" 24] round_to_nonneg[OF assms(1), of 24 "- 126"]
  show ?thesis by (simp add: f32_def)
qed

lemma f64_ge_one:
  assumes "1 \<le> y"
  shows "f64 y = PInf \<or> (\<exists>s. f64 y = Fin s \<and> 1 \<le> s)"
proof -
  from assms have "2 powi 0 \<le> y" by simp
  from round_to_ge_pow2[OF this, of "- 1022" 53] have "1 \<le> round_to 53 (- 1022) y" by simp
  then show ?thesis by (simp add: f64_def Let_def)
qed

lemma dadd_progress:
  assumes i: "0 \<le> i" and s: "1 \<le> s"
  shows "dadd i (Fin s) = PInf \<or>
         (\<exists>i'. dadd i (Fin s) = Fin i' \<and> (i + 1 / 2 \<le> i' \<or> 2 ^ 52 \<le> i'))"
proof -
  let ?y = "i + s"
  let ?r = "round_to 53 (- 1022) ?y"
  from i s have y: "0 < ?y" "1 \<le> ?y" by simp_all
  from y(2) have "2 powi 0 \<le> ?y" by simp
  from round_to_ge_pow2[OF this, of "- 1022" 53] have r1: "1 \<le> ?r" by simp
  have "i + 1 / 2 \<le> ?r \<or> 2 ^ 52 \<le> ?r"
  proof (cases "?y < 2 ^ 52")
    case True
    then have "?y < 2 powi 52" by simp
    from round_to_err[OF y(1) this, of "- 1022" 53] have "\<bar>?r - ?y\<bar> \<le> 1 / 4"
      by (simp add: power_int_minus)
    then have "?y - 1 / 4 \<le> ?r" by linarith
    with s have "i + 1 / 2 \<le> ?r" by linarith
    then show ?thesis ..
  next
    case False
    then have "2 powi 52 \<le> ?y" by simp
    from round_to_ge_pow2[OF this, of "- 1022" 53] show ?thesis by simp
  qed
  with r1 show ?thesis by (auto simp: dadd_def f64_def Let_def)
qed

text \<open>A \<^verbatim>\<open>TArray\<close> holds fewer than \<open>2^31\<close> elements.\<close>

lemma IBCache_loop_terminates:
  assumes l: "lod < length (SkipValues P)"
    and st: "SkipValues P ! lod = PInf \<or> (\<exists>s. SkipValues P ! lod = Fin s \<and> 1 \<le> s)"
    and n: "length pts < 2 ^ 31"
    and i0: "0 \<le> i"
  shows "\<exists>acc'. IBCache_loop P lod pts i acc = Some acc'"
  using i0
proof (induction "nat \<lceil>2 * (of_nat (length pts) - i)\<rceil>" arbitrary: i acc rule: less_induct)
  case less
  show ?case
  proof (cases "i < of_nat (length pts)")
    case False
    then show ?thesis by (subst IBCache_loop.simps) simp
  next
    case True
    from less.prems have a: "\<not> i \<le> - 1" by simp
    from True have "\<lfloor>i\<rfloor> < int (length pts)" by (simp add: floor_less_iff)
    moreover from less.prems have "0 \<le> \<lfloor>i\<rfloor>" by simp
    ultimately have b: "\<not> length pts \<le> nat \<lfloor>i\<rfloor>" by (simp add: nat_less_iff not_le)
    let ?acc = "IBCache_step P lod (VertexIndex (pts ! nat \<lfloor>i\<rfloor>)) acc"
    from st consider "dadd i (SkipValues P ! lod) = PInf"
      | i' where "dadd i (SkipValues P ! lod) = Fin i'" "i + 1 / 2 \<le> i' \<or> 2 ^ 52 \<le> i'"
    proof
      assume "SkipValues P ! lod = PInf"
      then have "dadd i (SkipValues P ! lod) = PInf" by (simp add: dadd_def)
      then show ?thesis by (rule that(1))
    next
      assume "\<exists>s. SkipValues P ! lod = Fin s \<and> 1 \<le> s"
      then obtain s where s: "SkipValues P ! lod = Fin s" "1 \<le> s" by blast
      from dadd_progress[OF less.prems s(2)] s(1) that show ?thesis by auto
    qed
    then show ?thesis
    proof cases
      case 1
      with True a b l show ?thesis by (subst IBCache_loop.simps) simp
    next
      case (2 i')
      have i'0: "0 \<le> i'" using 2(2) less.prems by auto
      have "of_nat (length pts) - i' \<le> of_nat (length pts) - i - 1 / 2"
      proof -
        from n have "(of_nat (length pts) :: rat) < 2 ^ 31"
          by (metis of_nat_less_iff of_nat_numeral of_nat_power)
        with True have "i + 1 / 2 \<le> 2 ^ 52" by simp
        with 2(2) have "i + 1 / 2 \<le> i'" by linarith
        then show ?thesis by simp
      qed
      then have "2 * (of_nat (length pts) - i') \<le> 2 * (of_nat (length pts) - i) - 1" by simp
      then have "\<lceil>2 * (of_nat (length pts) - i')\<rceil> \<le> \<lceil>2 * (of_nat (length pts) - i) - 1\<rceil>"
        by (rule ceiling_mono)
      moreover have "0 < \<lceil>2 * (of_nat (length pts) - i)\<rceil>" using True by simp
      ultimately have "nat \<lceil>2 * (of_nat (length pts) - i')\<rceil> < nat \<lceil>2 * (of_nat (length pts) - i)\<rceil>"
        by simp
      from less.hyps[OF this i'0] obtain acc' where
        "IBCache_loop P lod pts i' ?acc = Some acc'" by blast
      with True a b l 2(1) show ?thesis by (subst IBCache_loop.simps) simp
    qed
  qed
qed

text \<open>
  With the vertex indices inside the bitmap, one statistics cell per level, strides
  that let the sampling loop end and fewer than \<open>2^31\<close> points, no step of the recursion
  fails.
\<close>

lemma Build_filter_total:
  assumes "\<forall>p. Some p \<in> set InPoints \<longrightarrow> unat (VertexIndex p) < length RP"
  shows "\<exists>Tmp. Build_filter P RP d BMin BMax InPoints = Some Tmp \<and>
           (\<forall>p \<in> set Tmp. unat (VertexIndex p) < length RP) \<and> length Tmp \<le> length InPoints"
  using assms
proof (induction InPoints)
  case Nil
  then show ?case by simp
next
  case (Cons x xs)
  then obtain Tmp where t: "Build_filter P RP d BMin BMax xs = Some Tmp"
    "\<forall>p \<in> set Tmp. unat (VertexIndex p) < length RP" "length Tmp \<le> length xs"
    by auto
  show ?case
  proof (cases x)
    case None
    with t show ?thesis by simp
  next
    case (Some p)
    with Cons.prems have "unat (VertexIndex p) < length RP" by simp
    with t Some show ?thesis by (auto simp: IsPointUsed_def Let_def)
  qed
qed

lemma apply_reservations_total:
  assumes "\<forall>i \<in> set rs. unat i < length RP"
  shows "\<exists>RP'. apply_reservations P d rs RP = Some RP' \<and> length RP' = length RP"
  using assms
proof (induction rs arbitrary: RP)
  case Nil
  then show ?case by simp
next
  case (Cons r rs)
  from Cons.prems have "\<forall>i \<in> set rs. unat i < length (RP[unat r := (RP ! unat r) OR depth_bit P d])"
    by simp
  from Cons.IH[OF this] Cons.prems show ?case by (simp add: SetPointUsed_def)
qed

lemma AddStats_total:
  assumes "Depth < length St"
  shows "\<exists>St'. AddStats P Depth n St = Some St' \<and> length St' = length St"
  using assms by (simp add: AddStats_def Let_def)

lemma strides_ok_loop:
  assumes "strides_ok P" and "int lod \<le> MaxLOD P" and "length pts < 2 ^ 31"
  shows "\<exists>acc'. IBCache_loop P lod pts 0 acc = Some acc'"
proof (rule IBCache_loop_terminates)
  from assms show l: "lod < length (SkipValues P)" by (simp add: strides_ok_def)
  then have "SkipValues P ! lod \<in> set (SkipValues P)" by (rule nth_mem)
  with assms(1) show "SkipValues P ! lod = PInf \<or> (\<exists>s. SkipValues P ! lod = Fin s \<and> 1 \<le> s)"
    by (simp add: strides_ok_def)
qed (use assms in simp_all)

lemma BuildIBCache_total:
  assumes "strides_ok P" and "int (LOD this) \<le> MaxLOD P" and "length pts < 2 ^ 31"
  shows "\<exists>stored this' ks. BuildIBCache P this Parent pts = Some (stored, this', ks) \<and>
           LocalBounds this' = LocalBounds this"
proof (cases "merges_into_sibling P this Parent")
  case True
  then obtain c cs where s: "slots Parent = c # cs"
    by (cases "slots Parent") (auto simp: merges_into_sibling_def slots_def split: option.splits)
  from strides_ok_loop[OF assms] obtain acc where
    "IBCache_loop P (LOD this) pts 0 (IBCache c, NumPrimitives c) = Some acc" by blast
  with True s show ?thesis by (auto simp: BuildIBCache_def)
next
  case False
  from strides_ok_loop[OF assms] obtain acc where
    "IBCache_loop P (LOD this) pts 0 (IBCache this, NumPrimitives this) = Some acc" by blast
  with False show ?thesis by (auto simp: BuildIBCache_def)
qed

lemma lod_le_MaxLOD:
  assumes "int d \<le> MaxLOD P"
  shows "int (nat ((MaxLOD P - int d) mod 2 ^ 32)) \<le> MaxLOD P"
proof -
  from assms have "0 \<le> MaxLOD P - int d" by simp
  then have "(MaxLOD P - int d) mod 2 ^ 32 \<le> MaxLOD P - int d"
    by (rule zmod_le_nonneg_dividend)
  then show ?thesis by simp
qed

lemma build_total:
  shows "strides_ok P \<Longrightarrow> int (GetDepth Parent) \<le> MaxLOD P \<Longrightarrow>
           length (Stats S) = nat (MaxLOD P + 1) \<Longrightarrow>
           (\<forall>p. Some p \<in> set InPoints \<longrightarrow> unat (VertexIndex p) < length (ReservedPoints S)) \<Longrightarrow>
           length InPoints < 2 ^ 31 \<Longrightarrow>
           \<exists>n ks S'. Build P sched Parent Origin BoxExtent InPoints S = Some (n, ks, S') \<and>
             length (ReservedPoints S') = length (ReservedPoints S) \<and>
             length (Stats S') = length (Stats S)"
    and "strides_ok P \<Longrightarrow> int (GetDepth Parent) \<le> MaxLOD P \<Longrightarrow>
           length (Stats S) = nat (MaxLOD P + 1) \<Longrightarrow>
           (\<forall>p \<in> set TmpPoints. unat (VertexIndex p) < length (ReservedPoints S)) \<Longrightarrow>
           length TmpPoints < 2 ^ 31 \<Longrightarrow>
           \<exists>n ks S'. Build_rest P sched Parent Origin BoxExtent TmpPoints S = Some (n, ks, S') \<and>
             length (ReservedPoints S') = length (ReservedPoints S) \<and>
             length (Stats S') = length (Stats S)"
    and "strides_ok P \<Longrightarrow> int (GetDepth Parent) \<le> MaxLOD P \<Longrightarrow>
           length (Stats S) = nat (MaxLOD P + 1) \<Longrightarrow>
           (\<forall>p \<in> set Pts. unat (VertexIndex p) < length (ReservedPoints S)) \<Longrightarrow>
           length Pts < 2 ^ 31 \<Longrightarrow>
           LocalBounds this \<noteq> None \<Longrightarrow>
           \<exists>this' S'. Subdivide P sched Parent this Pts S = Some (this', S') \<and>
             length (ReservedPoints S') = length (ReservedPoints S) \<and>
             length (Stats S') = length (Stats S)"
    and "strides_ok P \<Longrightarrow> int (GetDepth Parent) < MaxLOD P \<Longrightarrow>
           length (Stats S) = nat (MaxLOD P + 1) \<Longrightarrow>
           (\<forall>p \<in> set Pts. unat (VertexIndex p) < length (ReservedPoints S)) \<Longrightarrow>
           length Pts < 2 ^ 31 \<Longrightarrow>
           LocalBounds this \<noteq> None \<Longrightarrow>
           \<exists>this' S'. Subdivide_loop P sched Parent todo ChildBoxExtent this Pts S = Some (this', S') \<and>
             length (ReservedPoints S') = length (ReservedPoints S) \<and>
             length (Stats S') = length (Stats S)"
    and "strides_ok P \<Longrightarrow> int (GetDepth Parent) < MaxLOD P \<Longrightarrow>
           length (Stats S) = nat (MaxLOD P + 1) \<Longrightarrow>
           (\<forall>p \<in> set Pts. unat (VertexIndex p) < length (ReservedPoints S)) \<Longrightarrow>
           length Pts < 2 ^ 31 \<Longrightarrow>
           LocalBounds this \<noteq> None \<Longrightarrow>
           \<exists>this' S'. Subdivide_Thread P sched Parent this Pts Extent Offset S = Some (this', S') \<and>
             length (ReservedPoints S') = length (ReservedPoints S) \<and>
             length (Stats S') = length (Stats S) \<and> LocalBounds this' \<noteq> None"
proof (induction P sched Parent Origin BoxExtent InPoints S
    and P sched Parent Origin BoxExtent TmpPoints S
    and P sched Parent this Pts S
    and P sched Parent todo ChildBoxExtent this Pts S
    and P sched Parent this Pts Extent Offset S
    rule: Build_Build_rest_Subdivide_Subdivide_loop_Subdivide_Thread.induct)
  case (1 P sched Parent Origin BoxExtent InPoints S)
  from Build_filter_total[OF "1.prems"(4)] obtain Tmp where
    f: "Build_filter P (ReservedPoints S) (GetDepth Parent) (vsub Origin BoxExtent)
          (vadd Origin BoxExtent) InPoints = Some Tmp"
    and i: "\<forall>p \<in> set Tmp. unat (VertexIndex p) < length (ReservedPoints S)"
    and le: "length Tmp \<le> length InPoints"
    by blast
  from le "1.prems"(5) have "length Tmp < 2 ^ 31" by simp
  from "1.IH"[OF f "1.prems"(1,2,3) i this] f show ?case
    by (simp add: Build.simps)
next
  case (2 P sched Parent Origin BoxExtent TmpPoints S)
  let ?d = "GetDepth Parent"
  let ?fresh = "Node (nat ((MaxLOD P - int ?d) mod 2 ^ 32)) 0 [] [] 0 (Some (Origin, BoxExtent))"
  show ?case
  proof (cases "MinimumNodePointCount P \<le> int (length TmpPoints)")
    case False
    then show ?thesis by (simp add: Build_rest.simps)
  next
    case True
    from "2.prems"(4) have "\<forall>i \<in> set (map VertexIndex TmpPoints). unat i < length (ReservedPoints S)"
      by simp
    from apply_reservations_total[OF this] obtain RP where
      rp: "apply_reservations P ?d (map VertexIndex TmpPoints) (ReservedPoints S) = Some RP"
      and rl: "length RP = length (ReservedPoints S)" by blast
    have "int (LOD ?fresh) \<le> MaxLOD P" using lod_le_MaxLOD[OF "2.prems"(2)] by simp
    from BuildIBCache_total[OF "2.prems"(1) this "2.prems"(5)] obtain stored this ks where
      ib: "BuildIBCache P ?fresh Parent TmpPoints = Some (stored, this, ks)"
      and lb: "LocalBounds this = LocalBounds ?fresh" by blast
    from "2.prems"(2,3) have "?d < length (Stats S)" by simp
    from AddStats_total[OF this] obtain St where
      st: "AddStats P ?d (NumPrimitives this) (Stats S) = Some St"
      and sl: "length St = length (Stats S)" by blast
    have "\<exists>this' S'. Subdivide P sched Parent this TmpPoints \<lparr>ReservedPoints = RP, Stats = St\<rparr>
              = Some (this', S') \<and>
            length (ReservedPoints S') = length (ReservedPoints \<lparr>ReservedPoints = RP, Stats = St\<rparr>) \<and>
            length (Stats S') = length (Stats \<lparr>ReservedPoints = RP, Stats = St\<rparr>)"
      using "2.prems" rl sl lb
      by (intro "2.IH"[OF True rp ib refl refl st]) simp_all
    then obtain this' S' where
      "Subdivide P sched Parent this TmpPoints \<lparr>ReservedPoints = RP, Stats = St\<rparr> = Some (this', S')"
      "length (ReservedPoints S') = length RP" "length (Stats S') = length St"
      by auto
    with True rp ib st rl sl show ?thesis
      by (simp add: Build_rest.simps)
  qed
next
  case (3 P sched Parent this Pts S)
  show ?case
  proof (cases "int (GetDepth Parent) < MaxLOD P")
    case False
    then show ?thesis by (simp add: Subdivide.simps)
  next
    case True
    from "3.prems"(6) obtain Origin BoxExtent where lb: "LocalBounds this = Some (Origin, BoxExtent)"
      by auto
    from "3.IH"[OF True lb refl "3.prems"(1) True "3.prems"(3,4,5,6)] True lb show ?thesis
      by (simp add: Subdivide.simps)
  qed
next
  case (4 P sched Parent ChildBoxExtent this Pts S)
  then show ?case by (simp add: Subdivide_loop.simps)
next
  case (5 P sched Parent i todo ChildBoxExtent this Pts S)
  from "5.IH"(1)[OF "5.prems"] obtain this1 S1 where
    th: "Subdivide_Thread P sched Parent this Pts ChildBoxExtent (octant_offset i) S = Some (this1, S1)"
    and l1: "length (ReservedPoints S1) = length (ReservedPoints S)"
    and l2: "length (Stats S1) = length (Stats S)" and lb: "LocalBounds this1 \<noteq> None"
    by blast
  have "\<exists>this' S'. Subdivide_loop P sched Parent todo ChildBoxExtent this1 Pts S1 = Some (this', S') \<and>
          length (ReservedPoints S') = length (ReservedPoints S1) \<and>
          length (Stats S') = length (Stats S1)"
    using "5.prems" l1 l2 lb by (intro "5.IH"(2)[OF th refl]) simp_all
  with th l1 l2 show ?case by (auto simp: Subdivide_loop.simps)
next
  case (6 P sched Parent this Pts Extent Offset S)
  from "6.prems"(6) obtain Origin BoxExtent where lb: "LocalBounds this = Some (Origin, BoxExtent)"
    by auto
  have "\<exists>n ks S'. Build P sched (Some (GetDepth Parent, Children this))
            (vsub (vadd Origin (vmul BoxExtent Offset)) Extent) Extent (map Some Pts) S = Some (n, ks, S') \<and>
          length (ReservedPoints S') = length (ReservedPoints S) \<and>
          length (Stats S') = length (Stats S)"
    using "6.prems" by (intro "6.IH"[OF lb refl]) (auto simp: GetDepth_def)
  with lb show ?case
    by (auto simp: Subdivide_Thread.simps link_child_def)
qed

text \<open>
  The strides that \<open>Rebuild\<close> computes are of that kind when the library keeps the power
  of a base between 0 and 1 between 0 and 1.
\<close>

lemma SkipValue_ok:
  assumes pf: "\<forall>x n. 0 \<le> x \<and> x \<le> 1 \<longrightarrow> 0 \<le> Powf P x n \<and> Powf P x n \<le> 1"
  shows "SkipValue P r i = PInf \<or> (\<exists>s. SkipValue P r i = Fin s \<and> 1 \<le> s)"
proof -
  let ?x = "f32 (1 - Clamp r 0 1)"
  let ?p = "Pow P ?x i"
  have "0 \<le> 1 - Clamp r 0 1" "1 - Clamp r 0 1 \<le> 1" by (simp_all add: Clamp_def)
  from f32_unit[OF this] have x: "0 \<le> ?x \<and> ?x \<le> 1" .
  with pf have "0 \<le> Powf P ?x i \<and> Powf P ?x i \<le> 1" by blast
  then have p: "0 \<le> ?p" "?p \<le> 1" by (simp_all add: Pow_def)
  show ?thesis
  proof (cases "?p = 0")
    case True
    then show ?thesis by (simp add: SkipValue_def)
  next
    case False
    with p have "1 \<le> 1 / ?p" by simp
    from f64_ge_one[OF this] False show ?thesis by (simp add: SkipValue_def)
  qed
qed

lemma exact_powf_unit:
  "\<forall>x n. 0 \<le> x \<and> x \<le> 1 \<longrightarrow> 0 \<le> exact_powf x n \<and> exact_powf x n \<le> 1"
proof (intro allI impI)
  fix x :: rat and n :: nat
  assume "0 \<le> x \<and> x \<le> 1"
  then have "0 \<le> x ^ n" "x ^ n \<le> 1" by (simp_all add: power_le_one)
  from f32_unit[OF this] show "0 \<le> exact_powf x n \<and> exact_powf x n \<le> 1"
    by (simp add: exact_powf_def)
qed

text \<open>
  So a rebuild of a tree with a constructed root returns, with a root, when the LOD count
  is positive, the vertex indices of the enabled points are below the point count, and
  there are fewer than \<open>2^31\<close> enabled points.
\<close>

lemma Rebuild_total:
  assumes rt: "Root T \<noteq> None" and m: "0 \<le> PC_LODCount PC - 1"
    and i: "\<forall>p. Some p \<in> set (PC_EnabledPoints PC) \<longrightarrow> unat (VertexIndex p) < PC_PointCount PC"
    and n: "length (PC_EnabledPoints PC) < 2 ^ 31"
    and pf: "\<forall>x n. 0 \<le> x \<and> x \<le> 1 \<longrightarrow> 0 \<le> Powf (Params T) x n \<and> Powf (Params T) x n \<le> 1"
  shows "\<exists>T'. Rebuild sched PC T = Some ([], T') \<and> Root T' \<noteq> None"
proof -
  from rt have d: "destroy_Root T = Some (T\<lparr>Root := None\<rparr>)"
    by (auto simp: destroy_Root_def)
  let ?P1 = "(Params T)\<lparr>SkipValues := [],
                  SinglePolySpriteMinimumLOD := PC_SinglePolySpriteMinimumLOD PC,
                  MaxLOD := PC_LODCount PC - 1,
                  bUsesSprites := PC_UsesSprites PC,
                  MinimumNodePointCount := PC_MinimumNodePointCount PC\<rparr>"
  let ?P = "?P1\<lparr>SkipValues := map (SkipValue ?P1 (PC_LODReduction PC)) [0..<nat (PC_LODCount PC - 1 + 1)]\<rparr>"
  let ?S = "\<lparr>ReservedPoints = replicate (PC_PointCount PC) 0,
            Stats = replicate (nat (PC_LODCount PC - 1 + 1))
                      \<lparr>NumCells = 0, PointCount = 0, MinPointCount = 0, MaxPointCount = 0\<rparr>\<rparr>"
  from pf have "\<forall>x n. 0 \<le> x \<and> x \<le> 1 \<longrightarrow> 0 \<le> Powf ?P1 x n \<and> Powf ?P1 x n \<le> 1" by simp
  from SkipValue_ok[OF this] have "strides_ok ?P"
    by (auto simp: strides_ok_def)
  moreover have "int (GetDepth None) \<le> MaxLOD ?P" using m by (simp add: GetDepth_def)
  moreover have "length (Stats ?S) = nat (MaxLOD ?P + 1)" by simp
  moreover have "\<forall>p. Some p \<in> set (PC_EnabledPoints PC) \<longrightarrow>
      unat (VertexIndex p) < length (ReservedPoints ?S)" using i by simp
  ultimately obtain r ks S' where
    "Build ?P sched None (PC_BoundsOrigin PC)
           \<lparr>X = GetMax (PC_BoundsBoxExtent PC), Y = GetMax (PC_BoundsBoxExtent PC),
            Z = GetMax (PC_BoundsBoxExtent PC)\<rparr> (PC_EnabledPoints PC) ?S = Some (r, ks, S')"
    using build_total(1)[of ?P None ?S "PC_EnabledPoints PC" sched "PC_BoundsOrigin PC"
        "\<lparr>X = GetMax (PC_BoundsBoxExtent PC), Y = GetMax (PC_BoundsBoxExtent PC),
            Z = GetMax (PC_BoundsBoxExtent PC)\<rparr>"] n
    by blast
  with m d show ?thesis by (simp add: Rebuild_def Let_def)
qed

subsection \<open>The render cache\<close>





text \<open>
  C10. After a rebuild, for every node of the tree the length of the cache is the number
  of primitives with sprite mode off and three times that number with sprite mode on,
  also for a node that received merged data. A node of LOD 0 whose data
  \<open>BuildIBCache\<close> merged into the first child slot of its parent has no primitive and an
  empty cache.
\<close>

theorem built_cache_ratio:
  "(Rebuild sched PC T = Some (lg, T') \<longrightarrow> Root T' = Some r \<longrightarrow> cache_ratio (Params T') r) \<and>
   (Build_rest P sched Parent Origin BoxExtent TmpPoints S = Some (n, ks, S') \<longrightarrow>
      MinimumNodePointCount P \<le> int (length TmpPoints) \<longrightarrow>
      merges_into_sibling P
        (Node (nat ((MaxLOD P - int (GetDepth Parent)) mod 2 ^ 32)) 0 [] [] 0 (Some (Origin, BoxExtent)))
        Parent \<longrightarrow>
      NumPrimitives n = 0 \<and> IBCache n = [])"
proof -
  have "cache_ratio (Params T') r" if rb: "Rebuild sched PC T = Some (lg, T')" and rt: "Root T' = Some r"
  proof -
    from Rebuild_Root[OF rb rt] obtain ks S2 S3 where
      m: "0 \<le> MaxLOD (Params T')"
      and b: "Build (Params T') sched None (PC_BoundsOrigin PC)
             \<lparr>X = GetMax (PC_BoundsBoxExtent PC), Y = GetMax (PC_BoundsBoxExtent PC),
              Z = GetMax (PC_BoundsBoxExtent PC)\<rparr> (PC_EnabledPoints PC) S2 = Some (r, ks, S3)"
      by blast
    from build_invariant(1)[OF b closed_cache_ratio] m
    have "r = Node UINT_MAX 0 [] [] 0 None \<or> cache_ratio (Params T') r"
      by (simp add: GetDepth_def slots_def)
    then show ?thesis
      by (auto simp: ratio_ok_def)
  qed
  moreover have "NumPrimitives n = 0 \<and> IBCache n = []"
    if br: "Build_rest P sched Parent Origin BoxExtent TmpPoints S = Some (n, ks, S')"
      and q: "MinimumNodePointCount P \<le> int (length TmpPoints)"
      and mg: "merges_into_sibling P
        (Node (nat ((MaxLOD P - int (GetDepth Parent)) mod 2 ^ 32)) 0 [] [] 0 (Some (Origin, BoxExtent)))
        Parent"
  proof -
    let ?fresh = "Node (nat ((MaxLOD P - int (GetDepth Parent)) mod 2 ^ 32)) 0 [] [] 0 (Some (Origin, BoxExtent))"
    from br q obtain stored this S1 where
      ib: "BuildIBCache P ?fresh Parent TmpPoints = Some (stored, this, ks)"
      and sub: "Subdivide P sched Parent this TmpPoints S1 = Some (n, S')"
      by (auto simp: Build_rest.simps split: option.splits)
    from ib mg have "this = ?fresh"
      by (auto simp: BuildIBCache_def split: list.splits option.splits)
    with Subdivide_own[OF sub] show ?thesis by simp
  qed
  ultimately show ?thesis by blast
qed

theorem built_cache_ratio_witness:
  "Rebuild [0, 1, 2, 3, 4, 5, 6, 7] (ex_cloud 3 0 ex_points2) (ex_tree 0) = Some ([], ex_built) \<and>
   Root ex_built = Some ex_built_root \<and> cache_ratio (Params ex_built) ex_built_root \<and>
   Build_rest (ex_params 2 0) [] (Some (1, [Node 0 1 [0] [] 0 None]))
       \<lparr>X = - 1 / 2, Y = - 3 / 2, Z = - 3 / 2\<rparr> \<lparr>X = 1 / 2, Y = 1 / 2, Z = 1 / 2\<rparr>
       [mk_point (- 1 / 2) (- 3 / 2) (- 3 / 2) 1] (ex_state 2 3)
     = Some (Node 0 0 [] [] 0
               (Some (\<lparr>X = - 1 / 2, Y = - 3 / 2, Z = - 3 / 2\<rparr>, \<lparr>X = 1 / 2, Y = 1 / 2, Z = 1 / 2\<rparr>)),
             [Node 0 2 [0, 1] [] 0 None],
             \<lparr>ReservedPoints = [0, 2],
              Stats = [\<lparr>NumCells = 0, PointCount = 0, MinPointCount = 0, MaxPointCount = 0\<rparr>,
                       \<lparr>NumCells = 0, PointCount = 0, MinPointCount = 0, MaxPointCount = 0\<rparr>,
                       \<lparr>NumCells = 1, PointCount = 0, MinPointCount = 0, MaxPointCount = 0\<rparr>]\<rparr>) \<and>
   MinimumNodePointCount (ex_params 2 0) \<le> int (length [mk_point (- 1 / 2) (- 3 / 2) (- 3 / 2) 1]) \<and>
   merges_into_sibling (ex_params 2 0)
     (Node (nat ((MaxLOD (ex_params 2 0) - int (GetDepth (Some (1, [Node 0 1 [0] [] 0 None])))) mod 2 ^ 32))
        0 [] [] 0 (Some (\<lparr>X = - 1 / 2, Y = - 3 / 2, Z = - 3 / 2\<rparr>, \<lparr>X = 1 / 2, Y = 1 / 2, Z = 1 / 2\<rparr>)))
     (Some (1, [Node 0 1 [0] [] 0 None]))"
proof -
  have h1: "Root ex_built = Some ex_built_root"
    by (simp add: ex_built_def)
  have h2: "Build_rest (ex_params 2 0) [] (Some (1, [Node 0 1 [0] [] 0 None]))
       \<lparr>X = - 1 / 2, Y = - 3 / 2, Z = - 3 / 2\<rparr> \<lparr>X = 1 / 2, Y = 1 / 2, Z = 1 / 2\<rparr>
       [mk_point (- 1 / 2) (- 3 / 2) (- 3 / 2) 1] (ex_state 2 3)
     = Some (Node 0 0 [] [] 0
               (Some (\<lparr>X = - 1 / 2, Y = - 3 / 2, Z = - 3 / 2\<rparr>, \<lparr>X = 1 / 2, Y = 1 / 2, Z = 1 / 2\<rparr>)),
             [Node 0 2 [0, 1] [] 0 None],
             \<lparr>ReservedPoints = [0, 2],
              Stats = [\<lparr>NumCells = 0, PointCount = 0, MinPointCount = 0, MaxPointCount = 0\<rparr>,
                       \<lparr>NumCells = 0, PointCount = 0, MinPointCount = 0, MaxPointCount = 0\<rparr>,
                       \<lparr>NumCells = 1, PointCount = 0, MinPointCount = 0, MaxPointCount = 0\<rparr>]\<rparr>)"
    by (simp add: eval_defs ex_defs)
  have h3: "MinimumNodePointCount (ex_params 2 0)
              \<le> int (length [mk_point (- 1 / 2) (- 3 / 2) (- 3 / 2) 1])"
    by (simp add: ex_params_def)
  have h4: "merges_into_sibling (ex_params 2 0)
     (Node (nat ((MaxLOD (ex_params 2 0) - int (GetDepth (Some (1, [Node 0 1 [0] [] 0 None])))) mod 2 ^ 32))
        0 [] [] 0 (Some (\<lparr>X = - 1 / 2, Y = - 3 / 2, Z = - 3 / 2\<rparr>, \<lparr>X = 1 / 2, Y = 1 / 2, Z = 1 / 2\<rparr>)))
     (Some (1, [Node 0 1 [0] [] 0 None]))"
    by (simp add: merges_into_sibling_def ex_params_def GetDepth_def)
  from built_cache_ratio[where sched = "[0, 1, 2, 3, 4, 5, 6, 7]"
      and PC = "ex_cloud 3 0 ex_points2" and T = "ex_tree 0" and lg = "[]" and T' = ex_built
      and r = ex_built_root] Rebuild_ex2 h1
  have "cache_ratio (Params ex_built) ex_built_root" by blast
  with Rebuild_ex2 h1 h2 h3 h4 show ?thesis by blast
qed

subsection \<open>LOD and depth\<close>

lemma BuildIBCache_keeps:
  assumes "BuildIBCache P this Parent pts = Some (stored, this', ks)"
  shows "LOD this' = LOD this \<and> LocalBounds this' = LocalBounds this \<and> Children this' = Children this"
  using assms by (auto simp: BuildIBCache_def split: if_splits list.splits option.splits)

lemma Build_rest_kept:
  assumes "Build_rest P sched Parent Origin BoxExtent Tmp S = Some (n, ks, S')"
    and "MinimumNodePointCount P \<le> int (length Tmp)"
  shows "LocalBounds n = Some (Origin, BoxExtent) \<and>
         LOD n = nat ((MaxLOD P - int (GetDepth Parent)) mod 2 ^ 32)"
proof -
  from assms obtain stored this S1 where
    ib: "BuildIBCache P (Node (nat ((MaxLOD P - int (GetDepth Parent)) mod 2 ^ 32)) 0 [] [] 0
           (Some (Origin, BoxExtent))) Parent Tmp = Some (stored, this, ks)"
    and sub: "Subdivide P sched Parent this Tmp S1 = Some (n, S')"
    by (auto simp: Build_rest.simps split: option.splits)
  from BuildIBCache_keeps[OF ib] Subdivide_own[OF sub] show ?thesis by simp
qed

text \<open>
  C2, as amended. The depth of a node is its position in the tree: 0 for the root, one
  more than its parent for a node in a child slot. A rebuild leaves a root that either
  failed the test of line 72 on the points that passed the filter of the root, and then
  is the bare node of the constructor with the sentinel LOD, or passed it, and then every
  node of the tree has the LOD \<open>MaxLOD\<close> minus its depth and a depth of at most \<open>MaxLOD\<close>.
  \<open>Subdivide\<close> attempts no child once the depth has reached \<open>MaxLOD\<close>.
  (\<^verbatim>\<open>GetLODCount()\<close> is a 32-bit integer.)
\<close>

theorem built_lod_is_MaxLOD_minus_depth:
  "(Rebuild sched PC T = Some (lg, T') \<longrightarrow> Root T' = Some r \<longrightarrow> PC_LODCount PC < 2 ^ 31 \<longrightarrow>
      (\<exists>TmpPoints.
         Build_filter (Params T') (replicate (PC_PointCount PC) 0) 0
             (vsub (PC_BoundsOrigin PC)
                \<lparr>X = GetMax (PC_BoundsBoxExtent PC), Y = GetMax (PC_BoundsBoxExtent PC),
                 Z = GetMax (PC_BoundsBoxExtent PC)\<rparr>)
             (vadd (PC_BoundsOrigin PC)
                \<lparr>X = GetMax (PC_BoundsBoxExtent PC), Y = GetMax (PC_BoundsBoxExtent PC),
                 Z = GetMax (PC_BoundsBoxExtent PC)\<rparr>)
             (PC_EnabledPoints PC) = Some TmpPoints \<and>
         (if int (length TmpPoints) < PC_MinimumNodePointCount PC
          then r = Node UINT_MAX 0 [] [] 0 None
          else lod_ok (Params T') 0 r))) \<and>
   (MaxLOD P \<le> int (GetDepth Parent) \<longrightarrow> Subdivide P sched Parent this Pts S = Some (this, S))"
proof -
  let ?E = "\<lparr>X = GetMax (PC_BoundsBoxExtent PC), Y = GetMax (PC_BoundsBoxExtent PC),
             Z = GetMax (PC_BoundsBoxExtent PC)\<rparr>"
  have "\<exists>TmpPoints.
         Build_filter (Params T') (replicate (PC_PointCount PC) 0) 0
             (vsub (PC_BoundsOrigin PC) ?E) (vadd (PC_BoundsOrigin PC) ?E)
             (PC_EnabledPoints PC) = Some TmpPoints \<and>
         (if int (length TmpPoints) < PC_MinimumNodePointCount PC
          then r = Node UINT_MAX 0 [] [] 0 None
          else lod_ok (Params T') 0 r)"
    if rb: "Rebuild sched PC T = Some (lg, T')" and rt: "Root T' = Some r"
      and bound: "PC_LODCount PC < 2 ^ 31"
  proof -
    from Rebuild_Root[OF rb rt] obtain ks S3 where
      m: "0 \<le> MaxLOD (Params T')" and mx: "MaxLOD (Params T') = PC_LODCount PC - 1"
      and mn: "MinimumNodePointCount (Params T') = PC_MinimumNodePointCount PC"
      and b: "Build (Params T') sched None (PC_BoundsOrigin PC) ?E (PC_EnabledPoints PC)
             \<lparr>ReservedPoints = replicate (PC_PointCount PC) 0,
              Stats = replicate (nat (PC_LODCount PC - 1 + 1))
                        \<lparr>NumCells = 0, PointCount = 0, MinPointCount = 0, MaxPointCount = 0\<rparr>\<rparr>
             = Some (r, ks, S3)"
      by blast
    from b obtain Tmp where
      f: "Build_filter (Params T') (replicate (PC_PointCount PC) 0) 0
             (vsub (PC_BoundsOrigin PC) ?E) (vadd (PC_BoundsOrigin PC) ?E)
             (PC_EnabledPoints PC) = Some Tmp"
      and br: "Build_rest (Params T') sched None (PC_BoundsOrigin PC) ?E Tmp
             \<lparr>ReservedPoints = replicate (PC_PointCount PC) 0,
              Stats = replicate (nat (PC_LODCount PC - 1 + 1))
                        \<lparr>NumCells = 0, PointCount = 0, MinPointCount = 0, MaxPointCount = 0\<rparr>\<rparr>
             = Some (r, ks, S3)"
      by (auto simp: Build.simps GetDepth_def split: option.splits)
    have "if int (length Tmp) < PC_MinimumNodePointCount PC
          then r = Node UINT_MAX 0 [] [] 0 None
          else lod_ok (Params T') 0 r"
    proof (cases "int (length Tmp) < PC_MinimumNodePointCount PC")
      case True
      with br mn show ?thesis by (simp add: Build_rest.simps)
    next
      case False
      with mn have "MinimumNodePointCount (Params T') \<le> int (length Tmp)" by simp
      from Build_rest_kept[OF br this] have nb: "LocalBounds r \<noteq> None" by simp
      from mx bound have "MaxLOD (Params T') < 2 ^ 32" by simp
      from build_invariant(1)[OF b closed_lod_ok[OF this]] m
      have "r = Node UINT_MAX 0 [] [] 0 None \<or> lod_ok (Params T') 0 r"
        by (simp add: GetDepth_def slots_def)
      with nb False show ?thesis by auto
    qed
    with f show ?thesis by blast
  qed
  moreover have "Subdivide P sched Parent this Pts S = Some (this, S)"
    if "MaxLOD P \<le> int (GetDepth Parent)"
    using that by (simp add: Subdivide.simps)
  ultimately show ?thesis by blast
qed

theorem built_lod_is_MaxLOD_minus_depth_witness:
  "Rebuild [0, 1, 2, 3, 4, 5, 6, 7] (ex_cloud 3 0 ex_points2) (ex_tree 0) = Some ([], ex_built) \<and>
   Root ex_built = Some ex_built_root \<and> PC_LODCount (ex_cloud 3 0 ex_points2) < 2 ^ 31 \<and>
   lod_ok (Params ex_built) 0 ex_built_root \<and>
   MaxLOD (ex_params 2 0) \<le> int (GetDepth (Some (1, []))) \<and>
   Subdivide (ex_params 2 0) [0, 1, 2, 3, 4, 5, 6, 7] (Some (1, []))
       (Node 0 1 [0] [] 0
          (Some (\<lparr>X = - 3 / 2, Y = - 3 / 2, Z = - 3 / 2\<rparr>, \<lparr>X = 1 / 2, Y = 1 / 2, Z = 1 / 2\<rparr>)))
       [mk_point (- 3 / 2) (- 3 / 2) (- 3 / 2) 0] (ex_state 2 3)
     = Some (Node 0 1 [0] [] 0
               (Some (\<lparr>X = - 3 / 2, Y = - 3 / 2, Z = - 3 / 2\<rparr>, \<lparr>X = 1 / 2, Y = 1 / 2, Z = 1 / 2\<rparr>)),
             ex_state 2 3)"
proof -
  have h1: "Root ex_built = Some ex_built_root"
    by (simp add: ex_built_def)
  have h2: "PC_LODCount (ex_cloud 3 0 ex_points2) < 2 ^ 31"
    by (simp add: ex_cloud_def)
  have h3: "Build_filter (Params ex_built) (replicate (PC_PointCount (ex_cloud 3 0 ex_points2)) 0) 0
             (vsub (PC_BoundsOrigin (ex_cloud 3 0 ex_points2))
                \<lparr>X = GetMax (PC_BoundsBoxExtent (ex_cloud 3 0 ex_points2)),
                 Y = GetMax (PC_BoundsBoxExtent (ex_cloud 3 0 ex_points2)),
                 Z = GetMax (PC_BoundsBoxExtent (ex_cloud 3 0 ex_points2))\<rparr>)
             (vadd (PC_BoundsOrigin (ex_cloud 3 0 ex_points2))
                \<lparr>X = GetMax (PC_BoundsBoxExtent (ex_cloud 3 0 ex_points2)),
                 Y = GetMax (PC_BoundsBoxExtent (ex_cloud 3 0 ex_points2)),
                 Z = GetMax (PC_BoundsBoxExtent (ex_cloud 3 0 ex_points2))\<rparr>)
             (PC_EnabledPoints (ex_cloud 3 0 ex_points2))
          = Some [mk_point (- 3 / 2) (- 3 / 2) (- 3 / 2) 0, mk_point (- 1 / 2) (- 3 / 2) (- 3 / 2) 1]"
    by (simp add: eval_defs ex_defs)
  have h4: "\<not> int (length [mk_point (- 3 / 2) (- 3 / 2) (- 3 / 2) 0, mk_point (- 1 / 2) (- 3 / 2) (- 3 / 2) 1])
              < PC_MinimumNodePointCount (ex_cloud 3 0 ex_points2)"
    by (simp add: ex_cloud_def)
  have h5: "MaxLOD (ex_params 2 0) \<le> int (GetDepth (Some (1, [])))"
    by (simp add: ex_params_def GetDepth_def)
  note t = built_lod_is_MaxLOD_minus_depth[where sched = "[0, 1, 2, 3, 4, 5, 6, 7]"
      and PC = "ex_cloud 3 0 ex_points2" and T = "ex_tree 0" and lg = "[]" and T' = ex_built
      and r = ex_built_root and P = "ex_params 2 0" and Parent = "Some (1, [])"
      and this = "Node 0 1 [0] [] 0
          (Some (\<lparr>X = - 3 / 2, Y = - 3 / 2, Z = - 3 / 2\<rparr>, \<lparr>X = 1 / 2, Y = 1 / 2, Z = 1 / 2\<rparr>))"
      and Pts = "[mk_point (- 3 / 2) (- 3 / 2) (- 3 / 2) 0]" and S = "ex_state 2 3"]
  from t Rebuild_ex2 h1 h2 obtain Tmp where
    "Build_filter (Params ex_built) (replicate (PC_PointCount (ex_cloud 3 0 ex_points2)) 0) 0
             (vsub (PC_BoundsOrigin (ex_cloud 3 0 ex_points2))
                \<lparr>X = GetMax (PC_BoundsBoxExtent (ex_cloud 3 0 ex_points2)),
                 Y = GetMax (PC_BoundsBoxExtent (ex_cloud 3 0 ex_points2)),
                 Z = GetMax (PC_BoundsBoxExtent (ex_cloud 3 0 ex_points2))\<rparr>)
             (vadd (PC_BoundsOrigin (ex_cloud 3 0 ex_points2))
                \<lparr>X = GetMax (PC_BoundsBoxExtent (ex_cloud 3 0 ex_points2)),
                 Y = GetMax (PC_BoundsBoxExtent (ex_cloud 3 0 ex_points2)),
                 Z = GetMax (PC_BoundsBoxExtent (ex_cloud 3 0 ex_points2))\<rparr>)
             (PC_EnabledPoints (ex_cloud 3 0 ex_points2)) = Some Tmp"
    and "if int (length Tmp) < PC_MinimumNodePointCount (ex_cloud 3 0 ex_points2)
          then ex_built_root = Node UINT_MAX 0 [] [] 0 None
          else lod_ok (Params ex_built) 0 ex_built_root"
    by blast
  with h3 h4 have "lod_ok (Params ex_built) 0 ex_built_root" by simp
  moreover from t h5 have "Subdivide (ex_params 2 0) [0, 1, 2, 3, 4, 5, 6, 7] (Some (1, []))
       (Node 0 1 [0] [] 0
          (Some (\<lparr>X = - 3 / 2, Y = - 3 / 2, Z = - 3 / 2\<rparr>, \<lparr>X = 1 / 2, Y = 1 / 2, Z = 1 / 2\<rparr>)))
       [mk_point (- 3 / 2) (- 3 / 2) (- 3 / 2) 0] (ex_state 2 3)
     = Some (Node 0 1 [0] [] 0
               (Some (\<lparr>X = - 3 / 2, Y = - 3 / 2, Z = - 3 / 2\<rparr>, \<lparr>X = 1 / 2, Y = 1 / 2, Z = 1 / 2\<rparr>)),
             ex_state 2 3)" by blast
  ultimately show ?thesis using Rebuild_ex2 h1 h2 h5 by blast
qed

text \<open>
  The claim as stated fails at the root: for a cloud of one point and a minimum of two
  points per node the root is constructed and is the root of the finished tree, at depth 0
  with \<open>MaxLOD = 2\<close>, and its LOD is the sentinel \<open>4294967295\<close>.
\<close>

theorem Rebuild_root_below_minimum:
  "map_option (map_option LOD \<circ> Root \<circ> snd)
       (Rebuild [0, 1, 2, 3, 4, 5, 6, 7]
          ((ex_cloud 3 0 [Some (mk_point 0 0 0 0)])\<lparr>PC_MinimumNodePointCount := 2\<rparr>) (ex_tree 0))
     = Some (Some 4294967295) \<and>
   map_option (MaxLOD \<circ> Params \<circ> snd)
       (Rebuild [0, 1, 2, 3, 4, 5, 6, 7]
          ((ex_cloud 3 0 [Some (mk_point 0 0 0 0)])\<lparr>PC_MinimumNodePointCount := 2\<rparr>) (ex_tree 0))
     = Some 2"
  by (simp add: eval_defs ex_defs)

subsection \<open>Regions below the minimum point count\<close>

text \<open>
  C3, as amended. When fewer than \<open>MinimumNodePointCount\<close> points pass the filter, the node
  keeps the sentinel LOD and \<open>Build\<close> does nothing more: the bitmap, the statistics and
  the child slots of the parent are as before, the node has no cache and no children.
  \<open>Subdivide_Thread\<close> does not link such a node. So after a rebuild no node in a child
  slot, at any depth, has the sentinel LOD. (The root is in no child slot.)
\<close>

theorem sentinel_nodes_are_discarded:
  "(int (length TmpPoints) < MinimumNodePointCount P \<longrightarrow>
      Build_rest P sched Parent Origin BoxExtent TmpPoints S
        = Some (Node UINT_MAX 0 [] [] 0 None, slots Parent, S)) \<and>
   (LOD Child = UINT_MAX \<longrightarrow> link_child this Child ks = set_children this ks) \<and>
   (Rebuild sched PC T = Some (lg, T') \<longrightarrow> Root T' = Some r \<longrightarrow> no_sentinel_child r)"
proof -
  have "no_sentinel_child r" if rb: "Rebuild sched PC T = Some (lg, T')" and rt: "Root T' = Some r"
  proof -
    from Rebuild_Root[OF rb rt] obtain ks S2 S3 where
      m: "0 \<le> MaxLOD (Params T')"
      and b: "Build (Params T') sched None (PC_BoundsOrigin PC)
             \<lparr>X = GetMax (PC_BoundsBoxExtent PC), Y = GetMax (PC_BoundsBoxExtent PC),
              Z = GetMax (PC_BoundsBoxExtent PC)\<rparr> (PC_EnabledPoints PC) S2 = Some (r, ks, S3)"
      by blast
    from build_invariant(1)[OF b closed_no_sentinel] m
    have "r = Node UINT_MAX 0 [] [] 0 None \<or> no_sentinel_child r"
      by (simp add: GetDepth_def slots_def)
    then show ?thesis by auto
  qed
  moreover have "Build_rest P sched Parent Origin BoxExtent TmpPoints S
        = Some (Node UINT_MAX 0 [] [] 0 None, slots Parent, S)"
    if "int (length TmpPoints) < MinimumNodePointCount P"
    using that by (simp add: Build_rest.simps)
  moreover have "link_child this Child ks = set_children this ks" if "LOD Child = UINT_MAX"
    using that by (simp add: link_child_def)
  ultimately show ?thesis by blast
qed

theorem sentinel_nodes_are_discarded_witness:
  "int (length ([] :: FPointCloudPoint list)) < MinimumNodePointCount (ex_params 2 0) \<and>
   Build_rest (ex_params 2 0) [0, 1, 2, 3, 4, 5, 6, 7] (Some (0, [ex_root]))
       \<lparr>X = 0, Y = 0, Z = 0\<rparr> \<lparr>X = 1, Y = 1, Z = 1\<rparr> [] (ex_state 2 3)
     = Some (Node UINT_MAX 0 [] [] 0 None, [ex_root], ex_state 2 3) \<and>
   LOD (Node UINT_MAX 0 [] [] 0 None) = UINT_MAX \<and>
   link_child ex_root (Node UINT_MAX 0 [] [] 0 None) [] = ex_root \<and>
   Rebuild [0, 1, 2, 3, 4, 5, 6, 7] (ex_cloud 3 0 ex_points2) (ex_tree 0) = Some ([], ex_built) \<and>
   Root ex_built = Some ex_built_root \<and> no_sentinel_child ex_built_root"
proof -
  have h1: "Root ex_built = Some ex_built_root"
    by (simp add: ex_built_def)
  have h2: "int (length ([] :: FPointCloudPoint list)) < MinimumNodePointCount (ex_params 2 0)"
    by (simp add: ex_params_def)
  have h3: "LOD (Node UINT_MAX 0 [] [] 0 None) = UINT_MAX"
    by simp
  note t = sentinel_nodes_are_discarded[where TmpPoints = "[]" and P = "ex_params 2 0"
      and sched = "[0, 1, 2, 3, 4, 5, 6, 7]" and Parent = "Some (0, [ex_root])"
      and Origin = "\<lparr>X = 0, Y = 0, Z = 0\<rparr>" and BoxExtent = "\<lparr>X = 1, Y = 1, Z = 1\<rparr>"
      and S = "ex_state 2 3" and Child = "Node UINT_MAX 0 [] [] 0 None" and this = ex_root
      and ks = "[]" and PC = "ex_cloud 3 0 ex_points2" and T = "ex_tree 0" and lg = "[]"
      and T' = ex_built and r = ex_built_root]
  from t h2 have "Build_rest (ex_params 2 0) [0, 1, 2, 3, 4, 5, 6, 7] (Some (0, [ex_root]))
       \<lparr>X = 0, Y = 0, Z = 0\<rparr> \<lparr>X = 1, Y = 1, Z = 1\<rparr> [] (ex_state 2 3)
     = Some (Node UINT_MAX 0 [] [] 0 None, [ex_root], ex_state 2 3)"
    by (simp add: slots_def)
  moreover from t h3 have "link_child ex_root (Node UINT_MAX 0 [] [] 0 None) [] = ex_root"
    by (simp add: set_children_def ex_root_def)
  moreover from t Rebuild_ex2 h1 have "no_sentinel_child ex_built_root" by blast
  ultimately show ?thesis using Rebuild_ex2 h1 h2 h3 by blast
qed

text \<open>
  The claim as stated fails at the root: for a cloud without points (and a minimum of one
  point) the root keeps the sentinel LOD, and it is the root of the finished tree.
\<close>

theorem Rebuild_root_keeps_sentinel:
  "map_option (Root \<circ> snd) (Rebuild [0, 1, 2, 3, 4, 5, 6, 7] (ex_cloud 1 0 []) (ex_tree 0))
     = Some (Some (Node UINT_MAX 0 [] [] 0 None))"
  by (simp add: eval_defs ex_defs)

subsection \<open>The target of the render cache\<close>

text \<open>
  C7, as amended. \<open>BuildIBCache\<close> writes the cache and the primitive count to this node
  unless the node has LOD 0, has a parent, the parent has a populated child slot and
  \<open>MaxLOD\<close> is above 1; then they go to the first child slot of the parent and this node
  is left as it was. It returns true exactly when the cache was stored on this node.
  \<open>Build\<close> does not use the returned value: whatever it is, \<open>Build\<close> passes the primitive
  count of this node to \<open>AddStats\<close> and goes on to \<open>Subdivide\<close>. For a merged node that
  count is 0, and \<open>AddStats\<close> then only counts the cell.
\<close>

theorem BuildIBCache_target:
  "(BuildIBCache P this Parent InPoints = Some (stored, this', ks) \<longrightarrow>
      (stored \<longleftrightarrow> \<not> merges_into_sibling P this Parent) \<and>
      (merges_into_sibling P this Parent \<longleftrightarrow>
         LOD this = 0 \<and> Parent \<noteq> None \<and> slots Parent \<noteq> [] \<and> 1 < MaxLOD P) \<and>
      (merges_into_sibling P this Parent \<longrightarrow>
         this' = this \<and> tl ks = tl (slots Parent) \<and>
         IBCache_loop P (LOD this) InPoints 0
            (IBCache (hd (slots Parent)), NumPrimitives (hd (slots Parent)))
           = Some (IBCache (hd ks), NumPrimitives (hd ks)) \<and>
         LOD (hd ks) = LOD (hd (slots Parent)) \<and> Children (hd ks) = Children (hd (slots Parent))) \<and>
      (\<not> merges_into_sibling P this Parent \<longrightarrow>
         ks = slots Parent \<and> LOD this' = LOD this \<and> Children this' = Children this \<and>
         IBCache_loop P (LOD this) InPoints 0 (IBCache this, NumPrimitives this)
           = Some (IBCache this', NumPrimitives this'))) \<and>
   (Build_rest P sched Parent Origin BoxExtent TmpPoints S = Some (n, ks', S') \<longrightarrow>
    MinimumNodePointCount P \<le> int (length TmpPoints) \<longrightarrow>
      (\<exists>RP returned this1 St.
         apply_reservations P (GetDepth Parent) (map VertexIndex TmpPoints) (ReservedPoints S)
           = Some RP \<and>
         BuildIBCache P
            (Node (nat ((MaxLOD P - int (GetDepth Parent)) mod 2 ^ 32)) 0 [] [] 0
               (Some (Origin, BoxExtent)))
            Parent TmpPoints = Some (returned, this1, ks') \<and>
         AddStats P (GetDepth Parent) (NumPrimitives this1) (Stats S) = Some St \<and>
         Subdivide P sched Parent this1 TmpPoints \<lparr>ReservedPoints = RP, Stats = St\<rparr> = Some (n, S') \<and>
         (\<not> returned \<longrightarrow>
            NumPrimitives this1 = 0 \<and>
            St = (Stats S)[GetDepth Parent :=
                   (Stats S ! GetDepth Parent)\<lparr>NumCells := NumCells (Stats S ! GetDepth Parent) + 1\<rparr>])))"
proof -
  have m: "merges_into_sibling P this Parent \<longleftrightarrow>
            LOD this = 0 \<and> Parent \<noteq> None \<and> slots Parent \<noteq> [] \<and> 1 < MaxLOD P"
    by (auto simp: merges_into_sibling_def slots_def split: option.splits)
  have a: "(stored \<longleftrightarrow> \<not> merges_into_sibling P this Parent) \<and>
      (merges_into_sibling P this Parent \<longleftrightarrow>
         LOD this = 0 \<and> Parent \<noteq> None \<and> slots Parent \<noteq> [] \<and> 1 < MaxLOD P) \<and>
      (merges_into_sibling P this Parent \<longrightarrow>
         this' = this \<and> tl ks = tl (slots Parent) \<and>
         IBCache_loop P (LOD this) InPoints 0
            (IBCache (hd (slots Parent)), NumPrimitives (hd (slots Parent)))
           = Some (IBCache (hd ks), NumPrimitives (hd ks)) \<and>
         LOD (hd ks) = LOD (hd (slots Parent)) \<and> Children (hd ks) = Children (hd (slots Parent))) \<and>
      (\<not> merges_into_sibling P this Parent \<longrightarrow>
         ks = slots Parent \<and> LOD this' = LOD this \<and> Children this' = Children this \<and>
         IBCache_loop P (LOD this) InPoints 0 (IBCache this, NumPrimitives this)
           = Some (IBCache this', NumPrimitives this'))"
    if ib: "BuildIBCache P this Parent InPoints = Some (stored, this', ks)"
  proof (cases "merges_into_sibling P this Parent")
    case True
    with ib m show ?thesis
      by (auto simp: BuildIBCache_def split: list.splits option.splits)
  next
    case False
    with ib m show ?thesis
      by (auto simp: BuildIBCache_def split: list.splits option.splits)
  qed
  have b: "\<exists>RP returned this1 St.
         apply_reservations P (GetDepth Parent) (map VertexIndex TmpPoints) (ReservedPoints S)
           = Some RP \<and>
         BuildIBCache P
            (Node (nat ((MaxLOD P - int (GetDepth Parent)) mod 2 ^ 32)) 0 [] [] 0
               (Some (Origin, BoxExtent)))
            Parent TmpPoints = Some (returned, this1, ks') \<and>
         AddStats P (GetDepth Parent) (NumPrimitives this1) (Stats S) = Some St \<and>
         Subdivide P sched Parent this1 TmpPoints \<lparr>ReservedPoints = RP, Stats = St\<rparr> = Some (n, S') \<and>
         (\<not> returned \<longrightarrow>
            NumPrimitives this1 = 0 \<and>
            St = (Stats S)[GetDepth Parent :=
                   (Stats S ! GetDepth Parent)\<lparr>NumCells := NumCells (Stats S ! GetDepth Parent) + 1\<rparr>])"
    if br: "Build_rest P sched Parent Origin BoxExtent TmpPoints S = Some (n, ks', S')"
      and q: "MinimumNodePointCount P \<le> int (length TmpPoints)"
  proof -
    let ?fresh = "Node (nat ((MaxLOD P - int (GetDepth Parent)) mod 2 ^ 32)) 0 [] [] 0
               (Some (Origin, BoxExtent))"
    from br q obtain RP returned this1 St where
      rp: "apply_reservations P (GetDepth Parent) (map VertexIndex TmpPoints) (ReservedPoints S)
             = Some RP"
      and ib: "BuildIBCache P ?fresh Parent TmpPoints = Some (returned, this1, ks')"
      and st: "AddStats P (GetDepth Parent) (NumPrimitives this1) (Stats S) = Some St"
      and sub: "Subdivide P sched Parent this1 TmpPoints \<lparr>ReservedPoints = RP, Stats = St\<rparr>
                  = Some (n, S')"
      by (auto simp: Build_rest.simps split: option.splits)
    have "NumPrimitives this1 = 0 \<and>
            St = (Stats S)[GetDepth Parent :=
                   (Stats S ! GetDepth Parent)\<lparr>NumCells := NumCells (Stats S ! GetDepth Parent) + 1\<rparr>]"
      if "\<not> returned"
    proof -
      from ib that have "this1 = ?fresh"
        by (auto simp: BuildIBCache_def split: if_splits list.splits option.splits)
      then have z: "NumPrimitives this1 = 0" by simp
      with st show ?thesis
        by (auto simp: AddStats_def Let_def split: if_splits)
    qed
    with rp ib st sub show ?thesis by blast
  qed
  from a b show ?thesis by blast
qed

theorem BuildIBCache_target_witness:
  "BuildIBCache (ex_params 2 0) (Node 0 0 [] [] 0 None) (Some (1, [Node 0 1 [0] [] 0 None]))
       [mk_point 0 0 0 7]
     = Some (False, Node 0 0 [] [] 0 None, [Node 0 2 [0, 7] [] 0 None]) \<and>
   merges_into_sibling (ex_params 2 0) (Node 0 0 [] [] 0 None) (Some (1, [Node 0 1 [0] [] 0 None])) \<and>
   Build_rest (ex_params 2 0) [] (Some (1, [Node 0 1 [0] [] 0 None]))
       \<lparr>X = - 1 / 2, Y = - 3 / 2, Z = - 3 / 2\<rparr> \<lparr>X = 1 / 2, Y = 1 / 2, Z = 1 / 2\<rparr>
       [mk_point (- 1 / 2) (- 3 / 2) (- 3 / 2) 1] (ex_state 2 3)
     = Some (Node 0 0 [] [] 0
               (Some (\<lparr>X = - 1 / 2, Y = - 3 / 2, Z = - 3 / 2\<rparr>, \<lparr>X = 1 / 2, Y = 1 / 2, Z = 1 / 2\<rparr>)),
             [Node 0 2 [0, 1] [] 0 None],
             \<lparr>ReservedPoints = [0, 2],
              Stats = [\<lparr>NumCells = 0, PointCount = 0, MinPointCount = 0, MaxPointCount = 0\<rparr>,
                       \<lparr>NumCells = 0, PointCount = 0, MinPointCount = 0, MaxPointCount = 0\<rparr>,
                       \<lparr>NumCells = 1, PointCount = 0, MinPointCount = 0, MaxPointCount = 0\<rparr>]\<rparr>) \<and>
   MinimumNodePointCount (ex_params 2 0) \<le> int (length [mk_point (- 1 / 2) (- 3 / 2) (- 3 / 2) 1]) \<and>
   (\<exists>RP this1 St.
      BuildIBCache (ex_params 2 0)
         (Node (nat ((MaxLOD (ex_params 2 0) - int (GetDepth (Some (1, [Node 0 1 [0] [] 0 None])))) mod 2 ^ 32))
            0 [] [] 0 (Some (\<lparr>X = - 1 / 2, Y = - 3 / 2, Z = - 3 / 2\<rparr>, \<lparr>X = 1 / 2, Y = 1 / 2, Z = 1 / 2\<rparr>)))
         (Some (1, [Node 0 1 [0] [] 0 None])) [mk_point (- 1 / 2) (- 3 / 2) (- 3 / 2) 1]
        = Some (False, this1, [Node 0 2 [0, 1] [] 0 None]) \<and>
      AddStats (ex_params 2 0) (GetDepth (Some (1, [Node 0 1 [0] [] 0 None]))) (NumPrimitives this1)
         (Stats (ex_state 2 3)) = Some St \<and>
      NumPrimitives this1 = 0)"
proof -
  have h1: "BuildIBCache (ex_params 2 0) (Node 0 0 [] [] 0 None) (Some (1, [Node 0 1 [0] [] 0 None]))
       [mk_point 0 0 0 7]
     = Some (False, Node 0 0 [] [] 0 None, [Node 0 2 [0, 7] [] 0 None])"
    by (simp add: eval_defs ex_defs)
  have h2: "Build_rest (ex_params 2 0) [] (Some (1, [Node 0 1 [0] [] 0 None]))
       \<lparr>X = - 1 / 2, Y = - 3 / 2, Z = - 3 / 2\<rparr> \<lparr>X = 1 / 2, Y = 1 / 2, Z = 1 / 2\<rparr>
       [mk_point (- 1 / 2) (- 3 / 2) (- 3 / 2) 1] (ex_state 2 3)
     = Some (Node 0 0 [] [] 0
               (Some (\<lparr>X = - 1 / 2, Y = - 3 / 2, Z = - 3 / 2\<rparr>, \<lparr>X = 1 / 2, Y = 1 / 2, Z = 1 / 2\<rparr>)),
             [Node 0 2 [0, 1] [] 0 None],
             \<lparr>ReservedPoints = [0, 2],
              Stats = [\<lparr>NumCells = 0, PointCount = 0, MinPointCount = 0, MaxPointCount = 0\<rparr>,
                       \<lparr>NumCells = 0, PointCount = 0, MinPointCount = 0, MaxPointCount = 0\<rparr>,
                       \<lparr>NumCells = 1, PointCount = 0, MinPointCount = 0, MaxPointCount = 0\<rparr>]\<rparr>)"
    by (simp add: eval_defs ex_defs)
  have h3: "MinimumNodePointCount (ex_params 2 0)
              \<le> int (length [mk_point (- 1 / 2) (- 3 / 2) (- 3 / 2) 1])"
    by (simp add: ex_params_def)
  note t = BuildIBCache_target[where P = "ex_params 2 0" and this = "Node 0 0 [] [] 0 None"
      and Parent = "Some (1, [Node 0 1 [0] [] 0 None])" and InPoints = "[mk_point 0 0 0 7]"
      and stored = False and this' = "Node 0 0 [] [] 0 None" and ks = "[Node 0 2 [0, 7] [] 0 None]"
      and sched = "[]" and Origin = "\<lparr>X = - 1 / 2, Y = - 3 / 2, Z = - 3 / 2\<rparr>"
      and BoxExtent = "\<lparr>X = 1 / 2, Y = 1 / 2, Z = 1 / 2\<rparr>"
      and TmpPoints = "[mk_point (- 1 / 2) (- 3 / 2) (- 3 / 2) 1]" and S = "ex_state 2 3"
      and n = "Node 0 0 [] [] 0
               (Some (\<lparr>X = - 1 / 2, Y = - 3 / 2, Z = - 3 / 2\<rparr>, \<lparr>X = 1 / 2, Y = 1 / 2, Z = 1 / 2\<rparr>))"
      and ks' = "[Node 0 2 [0, 1] [] 0 None]"
      and S' = "\<lparr>ReservedPoints = [0, 2],
              Stats = [\<lparr>NumCells = 0, PointCount = 0, MinPointCount = 0, MaxPointCount = 0\<rparr>,
                       \<lparr>NumCells = 0, PointCount = 0, MinPointCount = 0, MaxPointCount = 0\<rparr>,
                       \<lparr>NumCells = 1, PointCount = 0, MinPointCount = 0, MaxPointCount = 0\<rparr>]\<rparr>"]
  from t h1 have c1: "merges_into_sibling (ex_params 2 0) (Node 0 0 [] [] 0 None)
      (Some (1, [Node 0 1 [0] [] 0 None]))" by blast
  from t h2 h3 obtain RP returned this1 St where
    ib: "BuildIBCache (ex_params 2 0)
         (Node (nat ((MaxLOD (ex_params 2 0) - int (GetDepth (Some (1, [Node 0 1 [0] [] 0 None])))) mod 2 ^ 32))
            0 [] [] 0 (Some (\<lparr>X = - 1 / 2, Y = - 3 / 2, Z = - 3 / 2\<rparr>, \<lparr>X = 1 / 2, Y = 1 / 2, Z = 1 / 2\<rparr>)))
         (Some (1, [Node 0 1 [0] [] 0 None])) [mk_point (- 1 / 2) (- 3 / 2) (- 3 / 2) 1]
        = Some (returned, this1, [Node 0 2 [0, 1] [] 0 None])"
    and st: "AddStats (ex_params 2 0) (GetDepth (Some (1, [Node 0 1 [0] [] 0 None]))) (NumPrimitives this1)
         (Stats (ex_state 2 3)) = Some St"
    and z: "\<not> returned \<longrightarrow> NumPrimitives this1 = 0"
    by blast
  from ib have "\<not> returned"
    by (simp add: eval_defs ex_defs)
  with ib st z have c2: "\<exists>RP this1 St.
      BuildIBCache (ex_params 2 0)
         (Node (nat ((MaxLOD (ex_params 2 0) - int (GetDepth (Some (1, [Node 0 1 [0] [] 0 None])))) mod 2 ^ 32))
            0 [] [] 0 (Some (\<lparr>X = - 1 / 2, Y = - 3 / 2, Z = - 3 / 2\<rparr>, \<lparr>X = 1 / 2, Y = 1 / 2, Z = 1 / 2\<rparr>)))
         (Some (1, [Node 0 1 [0] [] 0 None])) [mk_point (- 1 / 2) (- 3 / 2) (- 3 / 2) 1]
        = Some (False, this1, [Node 0 2 [0, 1] [] 0 None]) \<and>
      AddStats (ex_params 2 0) (GetDepth (Some (1, [Node 0 1 [0] [] 0 None]))) (NumPrimitives this1)
         (Stats (ex_state 2 3)) = Some St \<and>
      NumPrimitives this1 = 0"
    by auto
  from h1 c1 h2 h3 c2 show ?thesis by blast
qed

text \<open>
  The claim as stated fails for the first leaf of a parent: the node has LOD 0, has a
  parent and \<open>MaxLOD\<close> is 2, but the parent has no populated child slot yet; the cache is
  stored on the node itself and the call returns true.
\<close>

theorem BuildIBCache_first_child_keeps_cache:
  "LOD (Node 0 0 [] [] 0 None) = 0 \<and> 1 < MaxLOD (ex_params 2 0) \<and>
   BuildIBCache (ex_params 2 0) (Node 0 0 [] [] 0 None) (Some (1, [])) [mk_point 0 0 0 7]
     = Some (True, Node 0 1 [7] [] 0 None, [])"
  by (simp add: eval_defs ex_defs)

subsection \<open>Sampling strides\<close>

lemma Clamp_unit:
  "Clamp r 0 1 = (if r < 0 then 0 else if r < 1 then r else 1)"
  by (simp add: Clamp_def)

lemma SkipValue_Powf: "Powf P = Powf P' \<Longrightarrow> SkipValue P r i = SkipValue P' r i"
  by (simp add: SkipValue_def Pow_def)

lemma SkipValue_at:
  assumes "Clamp r 0 1 = c" and "f32 (1 - c) = x" and "Pow P x i = p"
  shows "SkipValue P r i = (if p = 0 then PInf else f64 (1 / p))"
  using assms by (simp add: SkipValue_def)

lemma Rebuild_SkipValues_eq:
  assumes "Rebuild sched PC T = Some (lg, T')" and "0 \<le> PC_LODCount PC - 1"
  shows "SkipValues (Params T') =
           map (SkipValue (Params T') (PC_LODReduction PC)) [0..<nat (PC_LODCount PC)]"
proof -
  from assms obtain T0 where d: "destroy_Root T = Some T0"
    by (auto simp: Rebuild_def split: option.splits)
  let ?P1 = "(Params T0)\<lparr>SkipValues := [],
                  SinglePolySpriteMinimumLOD := PC_SinglePolySpriteMinimumLOD PC,
                  MaxLOD := PC_LODCount PC - 1,
                  bUsesSprites := PC_UsesSprites PC,
                  MinimumNodePointCount := PC_MinimumNodePointCount PC\<rparr>"
  from assms d have sv: "SkipValues (Params T') =
      map (SkipValue ?P1 (PC_LODReduction PC)) [0..<nat (PC_LODCount PC)]"
    and pf: "Powf (Params T') = Powf ?P1"
    by (auto simp: Rebuild_def Let_def split: option.splits)
  from pf have "SkipValue (Params T') (PC_LODReduction PC) = SkipValue ?P1 (PC_LODReduction PC)"
    by (intro ext) (rule SkipValue_Powf)
  with sv show ?thesis by simp
qed

text \<open>
  C5, as amended. \<open>Rebuild\<close> computes one stride for every \<open>i\<close> from 0 to \<open>MaxLOD\<close>. The
  reduction factor is clamped to the closed interval from 0 to 1: a factor below 0 counts
  as 0, a factor of 1 or more as 1. With \<open>c\<close> the clamped factor and \<open>p\<close> the binary32
  power \<^verbatim>\<open>powf(1 - c, i)\<close> of the binary32 difference \<open>1 - c\<close>, the stride is plus infinity
  when \<open>p\<close> is 0 and else the double nearest to \<open>1 / p\<close>. The stride of index 0 is 1. For
  a factor of 1 or more every other stride is plus infinity. A stride is also infinite
  for a factor below 1 when the power underflows (the factor \<open>1 - 2^-24\<close> and \<open>i = 7\<close>), and
  a finite stride is \<open>1 / (1 - c)^i\<close> only up to the three roundings: for the factor
  \<^verbatim>\<open>0.1f\<close> the stride of index 1 is \<^verbatim>\<open>1 / 0.9f\<close>. For the factor one half and \<open>MaxLOD = 2\<close>
  the strides are 1, 2, 4. (The three library values named in the hypotheses are the
  exact powers, which are binary32 numbers, and the underflow to 0.)
\<close>

theorem Rebuild_SkipValues:
  assumes "Rebuild sched PC T = Some (lg, T')" and "0 \<le> PC_LODCount PC - 1"
  shows "length (SkipValues (Params T')) = nat (PC_LODCount PC) \<and>
         (PC_LODReduction PC < 0 \<longrightarrow> Clamp (PC_LODReduction PC) 0 1 = 0) \<and>
         (0 \<le> PC_LODReduction PC \<and> PC_LODReduction PC < 1 \<longrightarrow>
            Clamp (PC_LODReduction PC) 0 1 = PC_LODReduction PC) \<and>
         (1 \<le> PC_LODReduction PC \<longrightarrow> Clamp (PC_LODReduction PC) 0 1 = 1) \<and>
         (\<forall>i < nat (PC_LODCount PC).
            SkipValues (Params T') ! i =
              (if Pow (Params T') (f32 (1 - Clamp (PC_LODReduction PC) 0 1)) i = 0 then PInf
               else f64 (1 / Pow (Params T') (f32 (1 - Clamp (PC_LODReduction PC) 0 1)) i))) \<and>
         SkipValues (Params T') ! 0 = Fin 1 \<and>
         (1 \<le> PC_LODReduction PC \<longrightarrow>
            (\<forall>i. 0 < i \<and> i < nat (PC_LODCount PC) \<longrightarrow> SkipValues (Params T') ! i = PInf)) \<and>
         (PC_LODReduction PC = 16777215 / 16777216 \<and> 8 \<le> PC_LODCount PC \<and>
          Powf (Params T') (1 / 16777216) 7 = 0 \<longrightarrow>
            SkipValues (Params T') ! 7 = PInf) \<and>
         (PC_LODReduction PC = 13421773 / 134217728 \<and> 2 \<le> PC_LODCount PC \<and>
          Powf (Params T') (7549747 / 8388608) 1 = 7549747 / 8388608 \<longrightarrow>
            SkipValues (Params T') ! 1 = Fin (1250999929631985 / 1125899906842624)) \<and>
         (PC_LODReduction PC = 1 / 2 \<and> PC_LODCount PC = 3 \<and>
          Powf (Params T') (1 / 2) 1 = 1 / 2 \<and> Powf (Params T') (1 / 2) 2 = 1 / 4 \<longrightarrow>
            SkipValues (Params T') = [Fin 1, Fin 2, Fin 4])"
proof -
  note eq = Rebuild_SkipValues_eq[OF assms]
  let ?r = "PC_LODReduction PC"
  have len: "length (SkipValues (Params T')) = nat (PC_LODCount PC)" by (simp add: eq)
  have nth: "SkipValues (Params T') ! i = SkipValue (Params T') ?r i" if "i < nat (PC_LODCount PC)" for i
    using that by (simp add: eq)
  have gen: "\<forall>i < nat (PC_LODCount PC).
            SkipValues (Params T') ! i =
              (if Pow (Params T') (f32 (1 - Clamp ?r 0 1)) i = 0 then PInf
               else f64 (1 / Pow (Params T') (f32 (1 - Clamp ?r 0 1)) i))"
    by (simp add: nth SkipValue_def Let_def)
  from assms(2) have "SkipValues (Params T') ! 0 = SkipValue (Params T') ?r 0"
    by (intro nth) simp
  then have zero: "SkipValues (Params T') ! 0 = Fin 1"
    by (simp add: SkipValue_def Pow_def f64_vals)
  have one: "\<forall>i. 0 < i \<and> i < nat (PC_LODCount PC) \<longrightarrow> SkipValues (Params T') ! i = PInf"
    if "1 \<le> ?r"
    using that by (simp add: nth SkipValue_def Pow_def Clamp_def f32_vals)
  have under: "SkipValues (Params T') ! 7 = PInf"
    if "?r = 16777215 / 16777216 \<and> 8 \<le> PC_LODCount PC \<and> Powf (Params T') (1 / 16777216) 7 = 0"
  proof -
    from that have r: "?r = 16777215 / 16777216" and c: "8 \<le> PC_LODCount PC"
      and p: "Powf (Params T') (1 / 16777216) 7 = 0" by blast+
    from c have "7 < nat (PC_LODCount PC)" by simp
    from nth[OF this] have n: "SkipValues (Params T') ! 7 = SkipValue (Params T') (16777215 / 16777216) 7"
      unfolding r .
    have cl: "Clamp (16777215 / 16777216) 0 1 = 16777215 / 16777216"
      by (simp add: Clamp_def)
    have f: "f32 (1 - 16777215 / 16777216) = 1 / 16777216"
      by (simp add: float_defs)
    have pw: "Pow (Params T') (1 / 16777216) 7 = 0"
      using p by (simp add: Pow_def)
    from SkipValue_at[OF cl f pw] n show ?thesis by simp
  qed
  have tenth: "SkipValues (Params T') ! 1 = Fin (1250999929631985 / 1125899906842624)"
    if "?r = 13421773 / 134217728 \<and> 2 \<le> PC_LODCount PC \<and>
        Powf (Params T') (7549747 / 8388608) 1 = 7549747 / 8388608"
  proof -
    from that have r: "?r = 13421773 / 134217728" and c: "2 \<le> PC_LODCount PC"
      and p: "Powf (Params T') (7549747 / 8388608) 1 = 7549747 / 8388608" by blast+
    from c have "1 < nat (PC_LODCount PC)" by simp
    from nth[OF this] have n: "SkipValues (Params T') ! 1 = SkipValue (Params T') (13421773 / 134217728) 1"
      unfolding r .
    have cl: "Clamp (13421773 / 134217728) 0 1 = 13421773 / 134217728"
      by (simp add: Clamp_def)
    have f: "f32 (1 - 13421773 / 134217728) = 7549747 / 8388608"
      by (simp add: float_defs)
    have pw: "Pow (Params T') (7549747 / 8388608) 1 = 7549747 / 8388608"
      using p by (simp add: Pow_def)
    have d: "f64 (1 / (7549747 / 8388608)) = Fin (1250999929631985 / 1125899906842624)"
      by (simp add: float_defs)
    from SkipValue_at[OF cl f pw] n d show ?thesis by simp
  qed
  have half: "SkipValues (Params T') = [Fin 1, Fin 2, Fin 4]"
    if "?r = 1 / 2 \<and> PC_LODCount PC = 3 \<and>
        Powf (Params T') (1 / 2) 1 = 1 / 2 \<and> Powf (Params T') (1 / 2) 2 = 1 / 4"
  proof -
    from that have r: "?r = 1 / 2" and c: "PC_LODCount PC = 3"
      and p: "Powf (Params T') (1 / 2) 1 = 1 / 2" "Powf (Params T') (1 / 2) 2 = 1 / 4" by blast+
    have cl: "Clamp (1 / 2) 0 1 = 1 / 2"
      by (simp add: Clamp_def)
    have f: "f32 (1 - 1 / 2) = 1 / 2"
      by (simp add: f32_vals)
    have p0: "Pow (Params T') (1 / 2) 0 = 1" and p1: "Pow (Params T') (1 / 2) 1 = 1 / 2"
      and p2: "Pow (Params T') (1 / 2) 2 = 1 / 4"
      using p by (simp_all add: Pow_def)
    have "SkipValue (Params T') (1 / 2) 0 = Fin 1" "SkipValue (Params T') (1 / 2) 1 = Fin 2"
      "SkipValue (Params T') (1 / 2) 2 = Fin 4"
      using SkipValue_at[OF cl f p0] SkipValue_at[OF cl f p1] SkipValue_at[OF cl f p2]
      by (simp_all add: f64_vals)
    moreover have "[0..<nat 3] = [0, 1, 2]"
      by (simp add: upt_rec)
    ultimately show ?thesis unfolding eq r c by simp
  qed
  from len gen zero one under tenth half show ?thesis
    by (simp add: Clamp_unit)
qed

theorem Rebuild_SkipValues_witness:
  "Rebuild [0, 1, 2, 3, 4, 5, 6, 7] (ex_cloud 3 (1 / 2) []) (ex_tree 0)
     = Some ([], ex_empty_built [Fin 1, Fin 2, Fin 4]) \<and>
   0 \<le> PC_LODCount (ex_cloud 3 (1 / 2) []) - 1 \<and>
   PC_LODReduction (ex_cloud 3 (1 / 2) []) = 1 / 2 \<and> PC_LODCount (ex_cloud 3 (1 / 2) []) = 3 \<and>
   Powf (Params (ex_empty_built [Fin 1, Fin 2, Fin 4])) (1 / 2) 1 = 1 / 2 \<and>
   Powf (Params (ex_empty_built [Fin 1, Fin 2, Fin 4])) (1 / 2) 2 = 1 / 4 \<and>
   SkipValues (Params (ex_empty_built [Fin 1, Fin 2, Fin 4])) = [Fin 1, Fin 2, Fin 4] \<and>
   SkipValues (Params (ex_empty_built [Fin 1, Fin 2, Fin 4])) ! 0 = Fin 1 \<and>
   Rebuild [0, 1, 2, 3, 4, 5, 6, 7] (ex_cloud 2 (13421773 / 134217728) []) (ex_tree 0)
     = Some ([], ex_empty_built [Fin 1, Fin (1250999929631985 / 1125899906842624)]) \<and>
   Powf (Params (ex_empty_built [Fin 1, Fin (1250999929631985 / 1125899906842624)]))
       (7549747 / 8388608) 1 = 7549747 / 8388608 \<and>
   Rebuild [0, 1, 2, 3, 4, 5, 6, 7] (ex_cloud 8 (16777215 / 16777216) []) (ex_tree 0)
     = Some ([], ex_empty_built
         [Fin 1, Fin 16777216, Fin 281474976710656, Fin 4722366482869645213696,
          Fin 79228162514264337593543950336, Fin 1329227995784915872903807060280344576,
          Fin 22300745198530623141535718272648361505980416, PInf]) \<and>
   Powf (Params (ex_empty_built
         [Fin 1, Fin 16777216, Fin 281474976710656, Fin 4722366482869645213696,
          Fin 79228162514264337593543950336, Fin 1329227995784915872903807060280344576,
          Fin 22300745198530623141535718272648361505980416, PInf])) (1 / 16777216) 7 = 0 \<and>
   Rebuild [0, 1, 2, 3, 4, 5, 6, 7] (ex_cloud 2 (- 1) []) (ex_tree 0)
     = Some ([], ex_empty_built [Fin 1, Fin 1]) \<and>
   Clamp (PC_LODReduction (ex_cloud 2 (- 1) [])) 0 1 = 0 \<and>
   Rebuild [0, 1, 2, 3, 4, 5, 6, 7] (ex_cloud 2 2 []) (ex_tree 0)
     = Some ([], ex_empty_built [Fin 1, PInf]) \<and>
   Clamp (PC_LODReduction (ex_cloud 2 2 [])) 0 1 = 1"
proof -
  have h1: "Rebuild [0, 1, 2, 3, 4, 5, 6, 7] (ex_cloud 3 (1 / 2) []) (ex_tree 0)
              = Some ([], ex_empty_built [Fin 1, Fin 2, Fin 4])"
    by (simp add: eval_defs ex_defs)
  have h2: "0 \<le> PC_LODCount (ex_cloud 3 (1 / 2) []) - 1"
    by (simp add: ex_cloud_def)
  have h3: "PC_LODReduction (ex_cloud 3 (1 / 2) []) = 1 / 2 \<and> PC_LODCount (ex_cloud 3 (1 / 2) []) = 3"
    by (simp add: ex_cloud_def)
  have h4: "Powf (Params (ex_empty_built [Fin 1, Fin 2, Fin 4])) (1 / 2) 1 = 1 / 2 \<and>
            Powf (Params (ex_empty_built [Fin 1, Fin 2, Fin 4])) (1 / 2) 2 = 1 / 4"
    by (simp add: ex_empty_built_def exact_powf_def power_divide f32_vals)
  have a1: "Rebuild [0, 1, 2, 3, 4, 5, 6, 7] (ex_cloud 2 (13421773 / 134217728) []) (ex_tree 0)
     = Some ([], ex_empty_built [Fin 1, Fin (1250999929631985 / 1125899906842624)])"
    by (simp add: eval_defs ex_defs round_defs)
  have a2: "0 \<le> PC_LODCount (ex_cloud 2 (13421773 / 134217728) []) - 1 \<and>
            PC_LODReduction (ex_cloud 2 (13421773 / 134217728) []) = 13421773 / 134217728 \<and>
            2 \<le> PC_LODCount (ex_cloud 2 (13421773 / 134217728) [])"
    by (simp add: ex_cloud_def)
  have a3: "Powf (Params (ex_empty_built [Fin 1, Fin (1250999929631985 / 1125899906842624)]))
       (7549747 / 8388608) 1 = 7549747 / 8388608"
    by (simp add: ex_empty_built_def float_defs)
  have b1: "Rebuild [0, 1, 2, 3, 4, 5, 6, 7] (ex_cloud 8 (16777215 / 16777216) []) (ex_tree 0)
     = Some ([], ex_empty_built
         [Fin 1, Fin 16777216, Fin 281474976710656, Fin 4722366482869645213696,
          Fin 79228162514264337593543950336, Fin 1329227995784915872903807060280344576,
          Fin 22300745198530623141535718272648361505980416, PInf])"
    by (simp add: eval_defs ex_defs round_defs)
  have b2: "0 \<le> PC_LODCount (ex_cloud 8 (16777215 / 16777216) []) - 1 \<and>
            PC_LODReduction (ex_cloud 8 (16777215 / 16777216) []) = 16777215 / 16777216 \<and>
            8 \<le> PC_LODCount (ex_cloud 8 (16777215 / 16777216) [])"
    by (simp add: ex_cloud_def)
  have b3: "Powf (Params (ex_empty_built
         [Fin 1, Fin 16777216, Fin 281474976710656, Fin 4722366482869645213696,
          Fin 79228162514264337593543950336, Fin 1329227995784915872903807060280344576,
          Fin 22300745198530623141535718272648361505980416, PInf])) (1 / 16777216) 7 = 0"
    by (simp add: ex_empty_built_def float_defs)
  have c1: "Rebuild [0, 1, 2, 3, 4, 5, 6, 7] (ex_cloud 2 (- 1) []) (ex_tree 0)
     = Some ([], ex_empty_built [Fin 1, Fin 1])"
    by (simp add: eval_defs ex_defs)
  have c2: "0 \<le> PC_LODCount (ex_cloud 2 (- 1) []) - 1 \<and> PC_LODReduction (ex_cloud 2 (- 1) []) < 0"
    by (simp add: ex_cloud_def)
  have d1: "Rebuild [0, 1, 2, 3, 4, 5, 6, 7] (ex_cloud 2 2 []) (ex_tree 0)
     = Some ([], ex_empty_built [Fin 1, PInf])"
    by (simp add: eval_defs ex_defs)
  have d2: "0 \<le> PC_LODCount (ex_cloud 2 2 []) - 1 \<and> 1 \<le> PC_LODReduction (ex_cloud 2 2 [])"
    by (simp add: ex_cloud_def)
  from Rebuild_SkipValues[OF h1 h2] h3 h4
  have r1: "SkipValues (Params (ex_empty_built [Fin 1, Fin 2, Fin 4])) = [Fin 1, Fin 2, Fin 4] \<and>
            SkipValues (Params (ex_empty_built [Fin 1, Fin 2, Fin 4])) ! 0 = Fin 1"
    by blast
  from Rebuild_SkipValues[OF c1 conjunct1[OF c2]] c2
  have r2: "Clamp (PC_LODReduction (ex_cloud 2 (- 1) [])) 0 1 = 0" by blast
  from Rebuild_SkipValues[OF d1 conjunct1[OF d2]] d2
  have r3: "Clamp (PC_LODReduction (ex_cloud 2 2 [])) 0 1 = 1" by blast
  from h1 h2 h3 h4 r1 a1 a3 b1 b3 c1 r2 d1 r3 show ?thesis by blast
qed

text \<open>
  The claim as stated fails for the reduction factor 1: the clamp leaves it at 1, which is
  not below 1, and the stride of index 1 is the quotient of a division by zero.
\<close>

theorem Rebuild_reduction_one_infinite_stride:
  "Clamp 1 0 1 = 1 \<and>
   map_option (SkipValues \<circ> Params \<circ> snd)
       (Rebuild [0, 1, 2, 3, 4, 5, 6, 7] (ex_cloud 2 1 []) (ex_tree 0))
     = Some [Fin 1, PInf]"
  by (simp add: eval_defs ex_defs)

subsection \<open>The guard of Rebuild\<close>

text \<open>
  C6. With a negative \<open>MaxLOD\<close> (an LOD count of 0) \<open>Rebuild\<close> logs the error and returns
  after the destructor of the root has run, without constructing a node in its place. The
  destroyed root keeps its \<^verbatim>\<open>NumChildren\<close> and \<^verbatim>\<open>Children[]\<close>. For the tree \<open>ex_built\<close>, whose
  root has a child, the rebuild with the LOD count 0 returns and leaves no root; the next
  rebuild, with the LOD count 0 or with the LOD count 3, runs the destructor on the
  destroyed root, which deletes the child a second time.
\<close>

theorem guard_path_leaves_destroyed_root:
  "Rebuild [0, 1, 2, 3, 4, 5, 6, 7] (ex_cloud 3 0 ex_points2) (ex_tree 0) = Some ([], ex_built) \<and>
   map_option (length \<circ> Children) (Root ex_built) = Some 1 \<and>
   Rebuild [0, 1, 2, 3, 4, 5, 6, 7] (ex_cloud 0 0 []) ex_built
     = Some ([''MaxLOD is lower than 0!''], ex_aborted) \<and>
   Root ex_aborted = None \<and>
   destroy_Root ex_aborted = None \<and>
   Rebuild [0, 1, 2, 3, 4, 5, 6, 7] (ex_cloud 0 0 []) ex_aborted = None \<and>
   Rebuild [0, 1, 2, 3, 4, 5, 6, 7] (ex_cloud 3 0 ex_points2) ex_aborted = None"
proof -
  have "Rebuild [0, 1, 2, 3, 4, 5, 6, 7] (ex_cloud 0 0 []) ex_built
     = Some ([''MaxLOD is lower than 0!''], ex_aborted)"
    by (simp add: Rebuild_def destroy_Root_def Let_def ex_cloud_def ex_built_def ex_built_root_def
        ex_aborted_def)
  moreover have "destroy_Root ex_aborted = None"
    by (simp add: destroy_Root_def ex_aborted_def)
  moreover from this have "Rebuild sched PC ex_aborted = None" for sched PC
    by (simp add: Rebuild_def)
  moreover have "Root ex_aborted = None"
    by (simp add: ex_aborted_def)
  moreover have "map_option (length \<circ> Children) (Root ex_built) = Some 1"
    by (simp add: ex_built_def ex_built_root_def)
  ultimately show ?thesis using Rebuild_ex2 by simp
qed

text \<open>
  What the guard path does in general: the root is destroyed, the arrays are emptied and
  the parameters copied; nothing else changes.
\<close>

lemma Rebuild_guard_path:
  assumes "PC_LODCount PC - 1 < 0"
  shows "Rebuild sched PC T =
           (case destroy_Root T of
              None \<Rightarrow> None
            | Some T0 \<Rightarrow>
                Some ([''MaxLOD is lower than 0!''],
                      T0\<lparr>State := \<lparr>ReservedPoints = [], Stats = []\<rparr>,
                         Params := (Params T)\<lparr>SkipValues := [],
                           SinglePolySpriteMinimumLOD := PC_SinglePolySpriteMinimumLOD PC,
                           MaxLOD := PC_LODCount PC - 1,
                           bUsesSprites := PC_UsesSprites PC,
                           MinimumNodePointCount := PC_MinimumNodePointCount PC\<rparr>\<rparr>))"
  using assms
  by (auto simp: Rebuild_def destroy_Root_def Let_def split: option.splits if_splits)

subsection \<open>Scheduling of the root tasks\<close>




subsection \<open>The depth passed to the reservation bitmap\<close>

text \<open>
  C9. The root has depth 0, and its \<open>Build\<close> passes that depth to \<open>IsPointUsed\<close> for every
  point on a face of the root box and to \<open>SetPointUsed\<close> for every point it accepts. For
  the cloud \<open>ex_points\<close>, whose two corner points lie on faces of the root box, the tree
  that \<open>Rebuild\<close> returns is decided by the value that the shift by \<open>Depth - 1\<close> leaves for
  \<open>Depth = 0\<close>: with the value 0 the corner points count as used and the root holds one
  point; with the value 1 it holds all three.
\<close>

theorem root_consults_undefined_shift:
  "GetDepth None = 0 \<and>
   map_option (Root \<circ> snd) (Rebuild [0, 1, 2, 3, 4, 5, 6, 7] (ex_cloud 1 0 ex_points) (ex_tree 0))
     = Some (Some (Node 0 1 [2] [] 0 (Some (\<lparr>X = 0, Y = 0, Z = 0\<rparr>, \<lparr>X = 2, Y = 2, Z = 2\<rparr>)))) \<and>
   map_option (Root \<circ> snd) (Rebuild [0, 1, 2, 3, 4, 5, 6, 7] (ex_cloud 1 0 ex_points) (ex_tree 1))
     = Some (Some (Node 0 3 [0, 1, 2] [] 0 (Some (\<lparr>X = 0, Y = 0, Z = 0\<rparr>, \<lparr>X = 2, Y = 2, Z = 2\<rparr>))))"
  by (simp add: eval_defs ex_defs)

text \<open>At the root the answer of \<open>IsPointUsed\<close> is computed from that value.\<close>

lemma IsPointUsed_root:
  "unat Index < length RP \<Longrightarrow>
   IsPointUsed P RP Index (GetDepth None)
     = Some ((RP ! unat Index) AND UndefinedShift P = UndefinedShift P)"
  by (simp add: IsPointUsed_def depth_bit_def GetDepth_def Let_def)

subsection \<open>Reservation of points on shared faces\<close>

text \<open>
  C1. The point with vertex index 2 lies on the face shared by the octants 0 and 1 of the
  root. When the filter loops of the two tasks overlap, both read the bitmap before either
  has reserved the point: both children accept it, both are linked, and the point is in
  the cache of two nodes of depth 1. Run one after the other by \<open>Subdivide\<close>, the second
  task finds the point reserved and only the first child exists.
\<close>

theorem overlapped_tasks_claim_same_point:
  "two_tasks_overlapped (ex_params 1 0) [0, 1, 2, 3, 4, 5, 6, 7] None ex_root
       [mk_point 0 (- 1) (- 1) 2] 0 1 (ex_state 3 2)
     = Some (Node 1 1 [2]
               [Node 0 1 [2] [] 0 (Some (\<lparr>X = - 1, Y = - 1, Z = - 1\<rparr>, \<lparr>X = 1, Y = 1, Z = 1\<rparr>)),
                Node 0 1 [2] [] 1 (Some (\<lparr>X = 1, Y = - 1, Z = - 1\<rparr>, \<lparr>X = 1, Y = 1, Z = 1\<rparr>))]
               0 (Some (\<lparr>X = 0, Y = 0, Z = 0\<rparr>, \<lparr>X = 2, Y = 2, Z = 2\<rparr>)),
             \<lparr>ReservedPoints = [0, 0, 1],
              Stats = [\<lparr>NumCells = 0, PointCount = 0, MinPointCount = 0, MaxPointCount = 0\<rparr>,
                       \<lparr>NumCells = 2, PointCount = 2, MinPointCount = 1, MaxPointCount = 1\<rparr>]\<rparr>) \<and>
   Subdivide (ex_params 1 0) [0, 1, 2, 3, 4, 5, 6, 7] None ex_root
       [mk_point 0 (- 1) (- 1) 2] (ex_state 3 2)
     = Some (Node 1 1 [2]
               [Node 0 1 [2] [] 0 (Some (\<lparr>X = - 1, Y = - 1, Z = - 1\<rparr>, \<lparr>X = 1, Y = 1, Z = 1\<rparr>))]
               0 (Some (\<lparr>X = 0, Y = 0, Z = 0\<rparr>, \<lparr>X = 2, Y = 2, Z = 2\<rparr>)),
             \<lparr>ReservedPoints = [0, 0, 1],
              Stats = [\<lparr>NumCells = 0, PointCount = 0, MinPointCount = 0, MaxPointCount = 0\<rparr>,
                       \<lparr>NumCells = 1, PointCount = 1, MinPointCount = 1, MaxPointCount = 1\<rparr>]\<rparr>)"
  by (simp add: eval_defs ex_defs)

end
